theory Spec2Isabelle
  imports Complex_Main "HOL-Library.Signed_Division"
begin

section \<open>Data model of bot.js\<close>

text \<open>
  A JavaScript \<^verbatim>\<open>Error\<close> is modelled by its message. BigInt values are \<^typ>\<open>int\<close>;
  BigInt division truncates toward zero, which is \<open>sdiv\<close> on \<^typ>\<open>int\<close>. JavaScript
  numbers that only ever hold small whole values (loop counters, activity counters,
  milliseconds) are \<^typ>\<open>nat\<close> or \<^typ>\<open>int\<close>; numbers that hold fractions (balances
  after \<^verbatim>\<open>parseFloat\<close>, the gas buffer) are idealised as \<^typ>\<open>real\<close>.
\<close>

datatype error = Error string

text \<open>The process-wide record \<^verbatim>\<open>activityStats\<close> (bot.js, line 109).\<close>

record activityStats =
  totalTransactions :: nat
  swaps :: nat
  addsLiquidity :: nat
  removesLiquidity :: nat
  sendsAndReceives :: nat
  randomSends :: nat
  customContractCalls :: nat
  rebalances :: nat
  lastActivity :: "(string \<times> string) list"

text \<open>
  What \<^verbatim>\<open>provider.getFeeData()\<close> resolves to: every field is a BigInt or null
  (\<open>None\<close>).
\<close>

record feeData =
  fd_gasPrice :: "int option"
  fd_maxFeePerGas :: "int option"
  fd_maxPriorityFeePerGas :: "int option"
  fd_lastBaseFeePerGas :: "int option"

text \<open>
  The object \<^verbatim>\<open>getGasPrice\<close> returns: \<^verbatim>\<open>{ maxFeePerGas, maxPriorityFeePerGas }\<close> or
  \<^verbatim>\<open>{ gasPrice }\<close>.
\<close>

datatype gasOptions = EIP1559 int int | Legacy int

text \<open>A transaction receipt: \<^verbatim>\<open>status\<close> is a number or null.\<close>

record receipt =
  status :: "int option"
  blockNumber :: nat

text \<open>
  \<^verbatim>\<open>tx.wait()\<close> either settles some milliseconds after it was called, resolving to a
  receipt or to null or rejecting with an error, or it stays pending.
\<close>

datatype wait_outcome = Settles nat "error + receipt option" | Pending

text \<open>
  What the closure \<^verbatim>\<open>func\<close> resolves to: null or undefined (\<open>None\<close>), or an object whose
  \<^verbatim>\<open>hash\<close> may be undefined.
\<close>

record tx =
  hash :: "string option"
  wait :: wait_outcome

section \<open>getGasPrice\<close>

text \<open>JavaScript truthiness of a BigInt-or-null: null and \<^verbatim>\<open>0n\<close> are falsy.\<close>

fun truthy :: "int option \<Rightarrow> bool" where
  "truthy None = False"
| "truthy (Some v) = (v \<noteq> 0)"

text \<open>\<^verbatim>\<open>a || d\<close> on a BigInt-or-null \<open>a\<close>.\<close>

fun or_default :: "int option \<Rightarrow> int \<Rightarrow> int" where
  "or_default None d = d"
| "or_default (Some v) d = (if v \<noteq> 0 then v else d)"

text \<open>\<^verbatim>\<open>ethers.parseUnits(n, "gwei")\<close> for a whole number \<open>n\<close>.\<close>

definition gwei :: "int \<Rightarrow> int" where
  "gwei n = n * 10 ^ 9"

text \<open>\<^verbatim>\<open>let buffer = 5.0 + (retryAttempt * 1.0)\<close>\<close>

definition buffer :: "nat \<Rightarrow> real" where
  "buffer retryAttempt = 5.0 + (real retryAttempt * 1.0)"

text \<open>
  \<^verbatim>\<open>BigInt(Math.round(buffer * 100))\<close>. \<^verbatim>\<open>Math.round\<close> rounds halves up, as \<^const>\<open>round\<close>
  does.
\<close>

definition scaledBuffer :: "nat \<Rightarrow> int" where
  "scaledBuffer retryAttempt = round (buffer retryAttempt * 100)"

text \<open>The body of \<^verbatim>\<open>getGasPrice\<close> after the fee data has been read.\<close>

definition quote :: "feeData \<Rightarrow> nat \<Rightarrow> gasOptions" where
  "quote fd retryAttempt =
     (if truthy (fd_maxFeePerGas fd) \<and> truthy (fd_maxPriorityFeePerGas fd) then
        let maxPriorityFeePerGas =
              (the (fd_maxPriorityFeePerGas fd) * scaledBuffer retryAttempt) sdiv 100;
            baseFee = or_default (fd_lastBaseFeePerGas fd) (gwei 1);
            maxFeePerGas = ((baseFee * scaledBuffer retryAttempt) sdiv 100) + maxPriorityFeePerGas
        in EIP1559 maxFeePerGas maxPriorityFeePerGas
      else
        let gasPrice = or_default (fd_gasPrice fd) (gwei 20);
            bufferedGasPrice = (gasPrice * scaledBuffer retryAttempt) sdiv 100
        in Legacy bufferedGasPrice)"

text \<open>
  \<^verbatim>\<open>getGasPrice(retryAttempt)\<close>: the read \<^verbatim>\<open>await provider.getFeeData()\<close> may reject, and
  the rejection propagates.
\<close>

definition getGasPrice :: "error + feeData \<Rightarrow> nat \<Rightarrow> error + gasOptions" where
  "getGasPrice feeDataRead retryAttempt =
     (case feeDataRead of
        Inl e \<Rightarrow> Inl e
      | Inr fd \<Rightarrow> Inr (quote fd retryAttempt))"

section \<open>withRetry\<close>

text \<open>
  What the outside world does at attempt \<open>i\<close> of one call of \<^verbatim>\<open>withRetry\<close>: the result of
  the fee-data read, and the result of the closure \<^verbatim>\<open>func\<close> on the gas options it is given.
  No closure that bot.js passes to \<^verbatim>\<open>withRetry\<close> touches \<^verbatim>\<open>activityStats\<close>.
\<close>

record attempt =
  feeDataRead :: "error + feeData"
  func :: "gasOptions \<Rightarrow> error + tx option"

text \<open>
  The state the program acts on: the activity counters, and a trace of the calls of
  \<^verbatim>\<open>delay\<close> (their arguments, in milliseconds), of \<^verbatim>\<open>getGasPrice\<close> (their arguments), of
  the closure given to \<^verbatim>\<open>withRetry\<close> (the attempt at which it ran), and of the swaps that
  \<^verbatim>\<open>checkAndRebalance\<close> hands to \<^verbatim>\<open>withRetry\<close> (input token, output token, amount).
\<close>

record world =
  stats :: activityStats
  sleeps :: "int list"
  estimates :: "nat list"
  invocations :: "nat list"
  requests :: "(string \<times> string \<times> real) list"

datatype 'a outcome = Returned 'a | Threw error

text \<open>
  \<^verbatim>\<open>Promise.race([tx.wait(), new Promise(... setTimeout(() => reject(...),
  confirmationTimeoutMs))])\<close>: the wait wins when it settles no later than the timer
  fires (\<^verbatim>\<open>tx.wait()\<close> is started first, so it also wins a tie).
\<close>

fun race :: "wait_outcome \<Rightarrow> int \<Rightarrow> error + receipt option" where
  "race Pending confirmationTimeoutMs = Inl (Error ''Transaction confirmation timed out.'')"
| "race (Settles t r) confirmationTimeoutMs =
     (if int t \<le> confirmationTimeoutMs then r
      else Inl (Error ''Transaction confirmation timed out.''))"

text \<open>\<^verbatim>\<open>!tx || typeof tx.hash === 'undefined'\<close>\<close>

fun invalidTx :: "tx option \<Rightarrow> bool" where
  "invalidTx None = True"
| "invalidTx (Some t) = (hash t = None)"

text \<open>
  The \<^verbatim>\<open>try\<close> block of one iteration: \<open>Inr\<close> is the receipt of the \<^verbatim>\<open>return\<close>, \<open>Inl\<close> the
  error the \<^verbatim>\<open>catch\<close> clause receives.
\<close>

definition tryBlock :: "attempt \<Rightarrow> int \<Rightarrow> nat \<Rightarrow> world \<Rightarrow> (error + receipt) \<times> world" where
  "tryBlock a confirmationTimeoutMs i w =
     (let w1 = w\<lparr>estimates := estimates w @ [i]\<rparr> in
      case getGasPrice (feeDataRead a) i of
        Inl e \<Rightarrow> (Inl e, w1)
      | Inr gasOptions \<Rightarrow>
          (let w2 = w1\<lparr>invocations := invocations w1 @ [i]\<rparr> in
           case func a gasOptions of
             Inl e \<Rightarrow> (Inl e, w2)
           | Inr t \<Rightarrow>
               if invalidTx t
               then (Inl (Error ''Function did not return a valid transaction object.''), w2)
               else
                 (let w3 = w2\<lparr>stats := (stats w2)
                            \<lparr>totalTransactions := totalTransactions (stats w2) + 1\<rparr>\<rparr> in
                  case race (wait (the t)) confirmationTimeoutMs of
                    Inl e \<Rightarrow> (Inl e, w3)
                  | Inr None \<Rightarrow>
                      (Inl (Error (''Transaction did not confirm or timed out: ''
                                   @ the (hash (the t)))), w3)
                  | Inr (Some r) \<Rightarrow>
                      if status r = Some 1 then (Inr r, w3)
                      else if status r = Some 0
                      then (Inl (Error (''Transaction failed on-chain (status 0): ''
                                        @ the (hash (the t)))), w3)
                      else (Inl (Error (''Transaction did not confirm or timed out: ''
                                        @ the (hash (the t)))), w3))))"

text \<open>
  The \<^verbatim>\<open>for\<close> loop of \<^verbatim>\<open>withRetry\<close> from index \<open>i\<close> on, with the \<^verbatim>\<open>return null\<close> after it.
\<close>

function withRetry_from ::
  "(nat \<Rightarrow> attempt) \<Rightarrow> int \<Rightarrow> int \<Rightarrow> int \<Rightarrow> nat \<Rightarrow> world \<Rightarrow> receipt option outcome \<times> world"
where
  "withRetry_from env maxRetries initialDelayMs confirmationTimeoutMs i w =
     (if int i < maxRetries then
        (case tryBlock (env i) confirmationTimeoutMs i w of
           (Inr r, w') \<Rightarrow> (Returned (Some r), w')
         | (Inl e, w') \<Rightarrow>
             if int i < maxRetries - 1
             then withRetry_from env maxRetries initialDelayMs confirmationTimeoutMs (Suc i)
                    (w'\<lparr>sleeps := sleeps w' @ [initialDelayMs * (int i + 1)]\<rparr>)
             else (Threw e, w'))
      else (Returned None, w))"
  by pat_completeness auto
termination
  by (relation "measure (\<lambda>(env, maxRetries, d, t, i, w). nat (maxRetries - int i))") auto

declare withRetry_from.simps [simp del]

definition withRetry ::
  "(nat \<Rightarrow> attempt) \<Rightarrow> int \<Rightarrow> int \<Rightarrow> int \<Rightarrow> world \<Rightarrow> receipt option outcome \<times> world"
where
  "withRetry env maxRetries initialDelayMs confirmationTimeoutMs w =
     withRetry_from env maxRetries initialDelayMs confirmationTimeoutMs 0 w"

section \<open>Observations on one call of withRetry\<close>

text \<open>
  The attempt reaches \<^verbatim>\<open>activityStats.totalTransactions++\<close>: the fee-data read succeeded
  and the closure returned an object with a defined \<^verbatim>\<open>hash\<close>.
\<close>

definition sendsTx :: "attempt \<Rightarrow> nat \<Rightarrow> bool" where
  "sendsTx a i =
     (case getGasPrice (feeDataRead a) i of
        Inl e \<Rightarrow> False
      | Inr gasOptions \<Rightarrow>
          (case func a gasOptions of Inl e \<Rightarrow> False | Inr t \<Rightarrow> \<not> invalidTx t))"

text \<open>The initial value of \<^verbatim>\<open>activityStats\<close> (bot.js, line 109), and a world with empty traces.\<close>

definition initialStats :: activityStats where
  "initialStats = \<lparr>totalTransactions = 0, swaps = 0, addsLiquidity = 0, removesLiquidity = 0,
     sendsAndReceives = 0, randomSends = 0, customContractCalls = 0, rebalances = 0,
     lastActivity = []\<rparr>"

definition initialWorld :: world where
  "initialWorld =
     \<lparr>stats = initialStats, sleeps = [], estimates = [], invocations = [], requests = []\<rparr>"

text \<open>
  What the \<^verbatim>\<open>try\<close> block of an attempt ends with; it does not depend on the counters or
  the traces (lemma \<open>tryBlock_fst\<close>).
\<close>

definition attemptResult :: "attempt \<Rightarrow> int \<Rightarrow> nat \<Rightarrow> error + receipt" where
  "attemptResult a confirmationTimeoutMs i = fst (tryBlock a confirmationTimeoutMs i initialWorld)"

section \<open>What the outside world does at an attempt\<close>

text \<open>
  The outcomes of an attempt, read off the fee-data read, the closure and the transaction
  it returns, and not off the code of \<^verbatim>\<open>withRetry\<close>. The closure is the one of attempt \<open>i\<close>,
  applied to the quote of attempt \<open>i\<close>.

  The attempt sends a transaction that is confirmed, no later than
  \<^verbatim>\<open>confirmationTimeoutMs\<close>, by the receipt \<open>r\<close> with on-chain success status.
\<close>

definition confirms :: "attempt \<Rightarrow> int \<Rightarrow> nat \<Rightarrow> receipt \<Rightarrow> bool" where
  "confirms a confirmationTimeoutMs i r =
     (case feeDataRead a of
        Inl e \<Rightarrow> False
      | Inr fd \<Rightarrow>
          (case func a (quote fd i) of
             Inr (Some x) \<Rightarrow>
               hash x \<noteq> None \<and>
               (case wait x of
                  Settles ms (Inr (Some r')) \<Rightarrow>
                    int ms \<le> confirmationTimeoutMs \<and> r' = r \<and> status r = Some 1
                | _ \<Rightarrow> False)
           | _ \<Rightarrow> False))"


text \<open>
  The attempt fails with the error \<open>e\<close>: the fee-data read fails; the closure throws, or
  returns nothing or an object without a hash; the confirmation times out, or the wait
  rejects; the transaction is mined with status 0; or the wait resolves to no receipt or
  to a receipt with another status.
\<close>

inductive fails :: "attempt \<Rightarrow> int \<Rightarrow> nat \<Rightarrow> error \<Rightarrow> bool" where
  feeReadFails:
    "feeDataRead a = Inl e \<Longrightarrow> fails a t i e"
| closureThrows:
    "feeDataRead a = Inr fd \<Longrightarrow> func a (quote fd i) = Inl e \<Longrightarrow> fails a t i e"
| noTransaction:
    "feeDataRead a = Inr fd \<Longrightarrow> func a (quote fd i) = Inr None \<Longrightarrow>
     fails a t i (Error ''Function did not return a valid transaction object.'')"
| noHash:
    "feeDataRead a = Inr fd \<Longrightarrow> func a (quote fd i) = Inr (Some x) \<Longrightarrow> hash x = None \<Longrightarrow>
     fails a t i (Error ''Function did not return a valid transaction object.'')"
| neverSettles:
    "feeDataRead a = Inr fd \<Longrightarrow> func a (quote fd i) = Inr (Some x) \<Longrightarrow> hash x = Some h \<Longrightarrow>
     wait x = Pending \<Longrightarrow>
     fails a t i (Error ''Transaction confirmation timed out.'')"
| settlesLate:
    "feeDataRead a = Inr fd \<Longrightarrow> func a (quote fd i) = Inr (Some x) \<Longrightarrow> hash x = Some h \<Longrightarrow>
     wait x = Settles ms r \<Longrightarrow> t < int ms \<Longrightarrow>
     fails a t i (Error ''Transaction confirmation timed out.'')"
| waitRejects:
    "feeDataRead a = Inr fd \<Longrightarrow> func a (quote fd i) = Inr (Some x) \<Longrightarrow> hash x = Some h \<Longrightarrow>
     wait x = Settles ms (Inl e) \<Longrightarrow> int ms \<le> t \<Longrightarrow>
     fails a t i e"
| reverted:
    "feeDataRead a = Inr fd \<Longrightarrow> func a (quote fd i) = Inr (Some x) \<Longrightarrow> hash x = Some h \<Longrightarrow>
     wait x = Settles ms (Inr (Some r)) \<Longrightarrow> int ms \<le> t \<Longrightarrow> status r = Some 0 \<Longrightarrow>
     fails a t i (Error (''Transaction failed on-chain (status 0): '' @ h))"
| noReceipt:
    "feeDataRead a = Inr fd \<Longrightarrow> func a (quote fd i) = Inr (Some x) \<Longrightarrow> hash x = Some h \<Longrightarrow>
     wait x = Settles ms (Inr None) \<Longrightarrow> int ms \<le> t \<Longrightarrow>
     fails a t i (Error (''Transaction did not confirm or timed out: '' @ h))"
| otherStatus:
    "feeDataRead a = Inr fd \<Longrightarrow> func a (quote fd i) = Inr (Some x) \<Longrightarrow> hash x = Some h \<Longrightarrow>
     wait x = Settles ms (Inr (Some r)) \<Longrightarrow> int ms \<le> t \<Longrightarrow>
     status r \<noteq> Some 1 \<Longrightarrow> status r \<noteq> Some 0 \<Longrightarrow>
     fails a t i (Error (''Transaction did not confirm or timed out: '' @ h))"

code_pred (modes: i \<Rightarrow> i \<Rightarrow> i \<Rightarrow> o \<Rightarrow> bool, i \<Rightarrow> i \<Rightarrow> i \<Rightarrow> i \<Rightarrow> bool) fails .

text \<open>Fee data as the RPC endpoint encodes it: every quantity present is unsigned.\<close>

fun unsigned :: "int option \<Rightarrow> bool" where
  "unsigned None = True"
| "unsigned (Some v) = (0 \<le> v)"

definition unsignedFeeData :: "feeData \<Rightarrow> bool" where
  "unsignedFeeData fd =
     (unsigned (fd_gasPrice fd) \<and> unsigned (fd_maxFeePerGas fd)
      \<and> unsigned (fd_maxPriorityFeePerGas fd) \<and> unsigned (fd_lastBaseFeePerGas fd))"

fun positiveQuote :: "gasOptions \<Rightarrow> bool" where
  "positiveQuote (EIP1559 maxFeePerGas maxPriorityFeePerGas) =
     (0 < maxFeePerGas \<and> 0 < maxPriorityFeePerGas)"
| "positiveQuote (Legacy gasPrice) = (0 < gasPrice)"

text \<open>Two quotes of the same shape, every field of the first below that of the second.\<close>

fun quoteLess :: "gasOptions \<Rightarrow> gasOptions \<Rightarrow> bool" where
  "quoteLess (EIP1559 m p) (EIP1559 m' p') = (m < m' \<and> p < p')"
| "quoteLess (Legacy g) (Legacy g') = (g < g')"
| "quoteLess q q' = False"

section \<open>Configuration constants of bot.js\<close>

definition TOKENS :: "(string \<times> string) list" where
  "TOKENS = [(''WXRP'', ''0x81Be083099c2C65b062378E74Fa8469644347BB7''),
             (''RISE'', ''0x0c28777DEebe4589e83EF2Dc7833354e6a0aFF85''),
             (''RIBBIT'', ''0x3D757474472f8F2A66Bdc1b51e4C4D11E813C16c'')]"

definition REBALANCE_THRESHOLDS :: "(string \<times> real) list" where
  "REBALANCE_THRESHOLDS = [(''XRP'', 0.01), (''RISE'', 0.005), (''RIBBIT'', 0.005)]"

definition GAS_LIMIT_COMPLEX :: int where
  "GAS_LIMIT_COMPLEX = 800000"

definition GAS_LIMIT_ERC20 :: int where
  "GAS_LIMIT_ERC20 = 100000"

definition SLIPPAGE_TOLERANCE_PERCENT :: real where
  "SLIPPAGE_TOLERANCE_PERCENT = 0.5"

section \<open>The chain as an action executor sees it\<close>

text \<open>
  The write calls the executors submit. The recipient \<^verbatim>\<open>wallet.address\<close> and the
  \<^verbatim>\<open>deadline\<close> (ten minutes after the clock) are left out; the last two arguments are the
  \<^verbatim>\<open>gasLimit\<close> and the gas options of the overrides.
\<close>

datatype call =
    Approve string int int gasOptions
  | SwapExactETHForTokens int "string list" int int gasOptions
  | SwapExactTokensForETH int int "string list" int gasOptions
  | SwapExactTokensForTokens int int "string list" int gasOptions
  | RemoveLiquidityETH string int int int int gasOptions

text \<open>
  The answers of the provider and of the contracts: the native balance and the token
  balances (the decimal strings of \<^verbatim>\<open>formatEther\<close> and \<^verbatim>\<open>formatUnits\<close>, read as numbers),
  \<^verbatim>\<open>decimals()\<close>, \<^verbatim>\<open>getAmountsOut\<close>, \<^verbatim>\<open>allowance\<close> and \<^verbatim>\<open>balanceOf\<close> of a token for the
  wallet, the submission of a write call, and what \<^verbatim>\<open>approvalTx.wait()\<close> settles to (a run
  in which it never settles does not return, and is not a value of this model).
\<close>

record chain =
  nativeBalance :: "error + real"
  tokenBalance :: "string \<Rightarrow> error + real"
  decimals :: "string \<Rightarrow> error + nat"
  getAmountsOut :: "int \<Rightarrow> string list \<Rightarrow> error + int list"
  allowance :: "string \<Rightarrow> error + int"
  balanceOf :: "string \<Rightarrow> error + int"
  send :: "call \<Rightarrow> error + tx"
  approvalWait :: "error + unit"

text \<open>
  \<^verbatim>\<open>getWalletTokenBalance(wallet, tokenSymbol)\<close>, followed by the \<^verbatim>\<open>parseFloat\<close> that every
  caller applies.
\<close>

definition getWalletTokenBalance :: "chain \<Rightarrow> string \<Rightarrow> error + real" where
  "getWalletTokenBalance c tokenSymbol =
     (if tokenSymbol = ''XRP'' then nativeBalance c
      else case map_of TOKENS tokenSymbol of
        None \<Rightarrow> Inl (Error (''Token address not found for symbol: '' @ tokenSymbol))
      | Some tokenAddress \<Rightarrow> tokenBalance c tokenSymbol)"

text \<open>
  \<^verbatim>\<open>ethers.parseUnits(amount, decimals)\<close> on the number a decimal string denotes: it throws
  when the string has more fractional digits than \<^verbatim>\<open>decimals\<close>.
\<close>

definition parseUnits :: "real \<Rightarrow> nat \<Rightarrow> error + int" where
  "parseUnits amount d =
     (if of_int \<lfloor>amount * 10 ^ d\<rfloor> = amount * 10 ^ d then Inr \<lfloor>amount * 10 ^ d\<rfloor>
      else Inl (Error ''too many decimals for format''))"

text \<open>
  \<^verbatim>\<open>gasOptions.maxFeePerGas ? gasOptions.maxFeePerGas * BigInt(GAS_LIMIT_COMPLEX)
  : gasOptions.gasPrice * BigInt(GAS_LIMIT_COMPLEX)\<close>: with a zero \<^verbatim>\<open>maxFeePerGas\<close> and no
  \<^verbatim>\<open>gasPrice\<close> the product of undefined and a BigInt throws a TypeError.
\<close>

fun gasCostWei :: "gasOptions \<Rightarrow> error + int" where
  "gasCostWei (EIP1559 maxFeePerGas maxPriorityFeePerGas) =
     (if maxFeePerGas \<noteq> 0 then Inr (maxFeePerGas * GAS_LIMIT_COMPLEX)
      else Inl (Error ''Cannot mix BigInt and other types, use explicit conversions''))"
| "gasCostWei (Legacy gasPrice) = Inr (gasPrice * GAS_LIMIT_COMPLEX)"

section \<open>performSwap\<close>

text \<open>
  Lines 619 to 664: the balance check, the path, and the raw input amount. The result is
  the input token, the output token, the path and \<^verbatim>\<open>amountInRaw\<close>.
\<close>

definition swapPreflight ::
  "chain \<Rightarrow> string \<times> string \<Rightarrow> real \<Rightarrow> string \<Rightarrow> error + (string \<times> string \<times> string list \<times> int)"
where
  "swapPreflight c pair amount direction =
     (let (inTokSymbol, outTokSymbol) =
            (if direction = ''AtoB'' then (fst pair, snd pair) else (snd pair, fst pair)) in
      case getWalletTokenBalance c inTokSymbol of
        Inl e \<Rightarrow> Inl e
      | Inr currentInTokBalance \<Rightarrow>
          if amount > currentInTokBalance
          then Inl (Error (''Insufficient '' @ inTokSymbol @ '' balance.''))
          else
            (let inTokenAddress = map_of TOKENS (if inTokSymbol = ''XRP'' then ''WXRP'' else inTokSymbol);
                 outTokenAddress = map_of TOKENS (if outTokSymbol = ''XRP'' then ''WXRP'' else outTokSymbol)
             in case (inTokenAddress, outTokenAddress) of
                  (Some a, Some b) \<Rightarrow>
                    (case (if inTokSymbol = ''XRP'' then parseUnits amount 18
                           else case decimals c inTokSymbol of
                                  Inl e \<Rightarrow> Inl e
                                | Inr inTokenDecimals \<Rightarrow> parseUnits amount inTokenDecimals) of
                       Inl e \<Rightarrow> Inl e
                     | Inr amountInRaw \<Rightarrow>
                         if amountInRaw \<le> 0
                         then Inl (Error (''Swap amount for '' @ inTokSymbol @ '' must be positive.''))
                         else Inr (inTokSymbol, outTokSymbol, [a, b], amountInRaw))
                | _ \<Rightarrow> Inl (Error (''Invalid token address in swap path. Check TOKENS map for ''
                                    @ inTokSymbol @ '' and '' @ outTokSymbol @ ''.''))))"

text \<open>
  \<^verbatim>\<open>(expectedAmountOutRaw * (BigInt(10000) - SLIPPAGE_TOLERANCE_DENOMINATOR)) /
  BigInt(10000)\<close> with \<^verbatim>\<open>SLIPPAGE_TOLERANCE_DENOMINATOR =
  BigInt(Math.round(SLIPPAGE_TOLERANCE_PERCENT * 100))\<close>.
\<close>

definition minOutput :: "int \<Rightarrow> int" where
  "minOutput expectedAmountOutRaw =
     (expectedAmountOutRaw * (10000 - round (SLIPPAGE_TOLERANCE_PERCENT * 100))) sdiv 10000"

text \<open>
  Lines 648 and 666 to 679: the \<^verbatim>\<open>try\<close> block that computes \<^verbatim>\<open>amountOutMin\<close>, and its
  \<^verbatim>\<open>catch\<close>. Inside the \<^verbatim>\<open>try\<close>, the use of \<^verbatim>\<open>amounts[1]\<close> of a shorter array throws, and
  the \<^verbatim>\<open>decimals()\<close> read for the log line may throw as well.
\<close>

definition quoteBlock :: "chain \<Rightarrow> int \<Rightarrow> string list \<Rightarrow> string \<Rightarrow> error + int" where
  "quoteBlock c amountInRaw path outTokSymbol =
     (case getAmountsOut c amountInRaw path of
        Inl e \<Rightarrow> Inl e
      | Inr amounts \<Rightarrow>
          if length amounts \<le> 1
          then Inl (Error ''amounts[1] is not there'')
          else
            (let expectedAmountOutRaw = amounts ! 1;
                 amountOutMin = minOutput expectedAmountOutRaw
             in if outTokSymbol = ''XRP'' then Inr amountOutMin
                else case decimals c outTokSymbol of
                       Inl e \<Rightarrow> Inl e
                     | Inr outTokenDecimals \<Rightarrow> Inr amountOutMin))"

definition slippageFloor :: "chain \<Rightarrow> int \<Rightarrow> string list \<Rightarrow> string \<Rightarrow> int" where
  "slippageFloor c amountInRaw path outTokSymbol =
     (case quoteBlock c amountInRaw path outTokSymbol of
        Inl err \<Rightarrow> 0
      | Inr amountOutMin \<Rightarrow> amountOutMin)"

text \<open>
  Lines 681 to 709: the submission, with the write calls submitted on the way, in order.
\<close>

definition swapSubmit ::
  "chain \<Rightarrow> string \<Rightarrow> string \<Rightarrow> real \<Rightarrow> int \<Rightarrow> int \<Rightarrow> string list \<Rightarrow> gasOptions
     \<Rightarrow> (error + tx) \<times> call list"
where
  "swapSubmit c inTokSymbol outTokSymbol amount amountInRaw amountOutMin path gasOptions =
     (if inTokSymbol = ''XRP'' then
        (case getWalletTokenBalance c ''XRP'' of
           Inl e \<Rightarrow> (Inl e, [])
         | Inr currentXRPBalance \<Rightarrow>
             (case gasCostWei gasOptions of
                Inl e \<Rightarrow> (Inl e, [])
              | Inr wei \<Rightarrow>
                  (let estimatedGasCost = real_of_int wei / 10 ^ 18 in
                   if amount + estimatedGasCost > currentXRPBalance
                   then (Inl (Error ''Insufficient XRP for value + gas.''), [])
                   else
                     (let swap = SwapExactETHForTokens amountOutMin path amountInRaw
                                   GAS_LIMIT_COMPLEX gasOptions
                      in (send c swap, [swap])))))
      else
        (case allowance c inTokSymbol of
           Inl e \<Rightarrow> (Inl e, [])
         | Inr currentAllowance \<Rightarrow>
             (let swap =
                    (if outTokSymbol = ''XRP''
                     then SwapExactTokensForETH amountInRaw amountOutMin path
                            GAS_LIMIT_COMPLEX gasOptions
                     else SwapExactTokensForTokens amountInRaw amountOutMin path
                            GAS_LIMIT_COMPLEX gasOptions)
              in if currentAllowance < amountInRaw then
                   (let approval = Approve inTokSymbol amountInRaw GAS_LIMIT_ERC20 gasOptions in
                    case send c approval of
                      Inl e \<Rightarrow> (Inl e, [approval])
                    | Inr approvalTx \<Rightarrow>
                        (case approvalWait c of
                           Inl e \<Rightarrow> (Inl e, [approval])
                         | Inr u \<Rightarrow> (send c swap, [approval, swap])))
                 else (send c swap, [swap]))))"

definition performSwap ::
  "chain \<Rightarrow> string \<times> string \<Rightarrow> real \<Rightarrow> string \<Rightarrow> gasOptions \<Rightarrow> (error + tx) \<times> call list"
where
  "performSwap c pair amount direction gasOptions =
     (case swapPreflight c pair amount direction of
        Inl e \<Rightarrow> (Inl e, [])
      | Inr (inTokSymbol, outTokSymbol, path, amountInRaw) \<Rightarrow>
          swapSubmit c inTokSymbol outTokSymbol amount amountInRaw
            (slippageFloor c amountInRaw path outTokSymbol) path gasOptions)"



section \<open>performRemoveLiquidity\<close>

text \<open>The \<^verbatim>\<open>cfg\<close> argument: \<^verbatim>\<open>REMOVE_LIQUIDITY_CONFIG\<close> of \<^verbatim>\<open>TOKEN_AMOUNT_CONFIG\<close>.\<close>

record removeConfig =
  removeAmountPercentage :: int
  lpTokenName :: string

definition REMOVE_LIQUIDITY_CONFIG :: removeConfig where
  "REMOVE_LIQUIDITY_CONFIG = \<lparr>removeAmountPercentage = 50, lpTokenName = ''RISE''\<rparr>"

definition performRemoveLiquidity ::
  "chain \<Rightarrow> removeConfig \<Rightarrow> gasOptions \<Rightarrow> (error + tx) \<times> call list"
where
  "performRemoveLiquidity c cfg gasOptions =
     (case map_of TOKENS (lpTokenName cfg) of
        None \<Rightarrow> (Inl (Error (''Token address not found for symbol: '' @ lpTokenName cfg)), [])
      | Some tokenAddress \<Rightarrow>
          (case balanceOf c (lpTokenName cfg) of
             Inl e \<Rightarrow> (Inl e, [])
           | Inr lpBalance \<Rightarrow>
               if lpBalance = 0
               then (Inl (Error (''No LP tokens for '' @ lpTokenName cfg)), [])
               else
                 (let lpAmountToRemove = (lpBalance * removeAmountPercentage cfg) sdiv 100 in
                  if lpAmountToRemove = 0
                  then (Inl (Error ''Calculated LP amount to remove is zero.''), [])
                  else
                    (case allowance c (lpTokenName cfg) of
                       Inl e \<Rightarrow> (Inl e, [])
                     | Inr currentAllowance \<Rightarrow>
                         (let remove = RemoveLiquidityETH tokenAddress lpAmountToRemove 0 0
                                         GAS_LIMIT_COMPLEX gasOptions
                          in if currentAllowance < lpAmountToRemove then
                               (let approval = Approve (lpTokenName cfg) lpAmountToRemove
                                                 GAS_LIMIT_ERC20 gasOptions in
                                case send c approval of
                                  Inl e \<Rightarrow> (Inl e, [approval])
                                | Inr approvalTx \<Rightarrow>
                                    (case approvalWait c of
                                       Inl e \<Rightarrow> (Inl e, [approval])
                                     | Inr u \<Rightarrow> (send c remove, [approval, remove])))
                             else (send c remove, [remove]))))))"

section \<open>checkAndRebalance\<close>

text \<open>
  JavaScript comparisons of numbers that may be NaN (\<open>None\<close>): a comparison with NaN is
  false. \<^verbatim>\<open>parseFloat(undefined)\<close> and a product with \<^verbatim>\<open>undefined\<close> are NaN.
\<close>

fun lessNum :: "real option \<Rightarrow> real option \<Rightarrow> bool" where
  "lessNum (Some a) (Some b) = (a < b)"
| "lessNum a b = False"

definition thresholdOf :: "string \<Rightarrow> real option" where
  "thresholdOf tokenSymbol = map_of REBALANCE_THRESHOLDS tokenSymbol"

definition twice :: "real option \<Rightarrow> real option" where
  "twice x = map_option (\<lambda>v. v * 2) x"

text \<open>\<^verbatim>\<open>parseFloat(x.toFixed(4))\<close>: \<^verbatim>\<open>toFixed\<close> rounds to the nearest, halves away from zero.\<close>

definition toFixed4 :: "real \<Rightarrow> real" where
  "toFixed4 x =
     (if x < 0 then - (real_of_int (round (- x * 10000)) / 10000)
      else real_of_int (round (x * 10000)) / 10000)"

text \<open>
  \<^verbatim>\<open>getWalletBalances(wallet)\<close>: the native balance under \<^verbatim>\<open>"XRP"\<close>, then every symbol of
  \<^verbatim>\<open>TOKENS\<close> other than \<^verbatim>\<open>"XRP"\<close>; a read that fails gives \<^verbatim>\<open>"0"\<close>.
\<close>

definition getWalletBalances :: "chain \<Rightarrow> (string \<times> real) list" where
  "getWalletBalances c =
     (''XRP'', case nativeBalance c of Inl e \<Rightarrow> 0 | Inr v \<Rightarrow> v)
     # map (\<lambda>tokenSymbol.
              (tokenSymbol, case getWalletTokenBalance c tokenSymbol of Inl e \<Rightarrow> 0 | Inr v \<Rightarrow> v))
         (filter (\<lambda>tokenSymbol. tokenSymbol \<noteq> ''XRP'') (map fst TOKENS))"

text \<open>
  What \<^verbatim>\<open>checkAndRebalance\<close> meets: the chain its balance reads see, and, for the swap of
  an input token, the fee data and the chain at each attempt of \<^verbatim>\<open>withRetry\<close>.
\<close>

record rebalanceEnv =
  reads :: chain
  during :: "string \<Rightarrow> nat \<Rightarrow> (error + feeData) \<times> chain"

text \<open>
  The closure \<^verbatim>\<open>async (gasOptions) => await performSwap(wallet, [inTok, outTok], amount,
  "AtoB", gasOptions)\<close>, attempt by attempt.
\<close>

definition swapClosure ::
  "(nat \<Rightarrow> (error + feeData) \<times> chain) \<Rightarrow> string \<Rightarrow> string \<Rightarrow> real \<Rightarrow> nat \<Rightarrow> attempt"
where
  "swapClosure atAttempt inTok outTok amount i =
     \<lparr>feeDataRead = fst (atAttempt i),
      func = (\<lambda>gasOptions.
                case fst (performSwap (snd (atAttempt i)) (inTok, outTok) amount ''AtoB'' gasOptions) of
                  Inl e \<Rightarrow> Inl e
                | Inr t \<Rightarrow> Inr (Some t))\<rparr>"

text \<open>\<^verbatim>\<open>activityStats.rebalances++\<close>\<close>

definition countRebalance :: "world \<Rightarrow> world" where
  "countRebalance w = w\<lparr>stats := (stats w)\<lparr>rebalances := rebalances (stats w) + 1\<rparr>\<rparr>"

text \<open>
  Lines 1006 to 1033: the loop over \<^verbatim>\<open>Object.keys(TOKENS)\<close> inside the \<^verbatim>\<open>try\<close>, from the
  symbols still to visit. An error thrown by \<^verbatim>\<open>withRetry\<close> leaves the loop for the \<^verbatim>\<open>catch\<close>,
  which logs it. Every symbol of \<^verbatim>\<open>TOKENS\<close> has an entry in \<^verbatim>\<open>walletBalances\<close> (lemma
  \<open>getWalletBalances_defined\<close>), so the first case does not arise for them.
\<close>

fun rebalanceXRP :: "rebalanceEnv \<Rightarrow> (string \<times> real) list \<Rightarrow> string list \<Rightarrow> world \<Rightarrow> world" where
  "rebalanceXRP env walletBalances [] w = w"
| "rebalanceXRP env walletBalances (tokenSymbol # rest) w =
     (if tokenSymbol = ''XRP''
         \<or> lessNum (map_of walletBalances tokenSymbol) (twice (thresholdOf ''XRP''))
      then rebalanceXRP env walletBalances rest w
      else
        (case map_of walletBalances tokenSymbol of
           None \<Rightarrow> rebalanceXRP env walletBalances rest w
         | Some balance \<Rightarrow>
             (let amountToSwap = toFixed4 (balance * 0.05) in
              if amountToSwap \<le> 0 then rebalanceXRP env walletBalances rest w
              else
                (case withRetry (swapClosure (during env tokenSymbol) tokenSymbol ''XRP'' amountToSwap)
                        3 1000 60000
                        (w\<lparr>requests := requests w @ [(tokenSymbol, ''XRP'', amountToSwap)]\<rparr>) of
                   (Threw error, w') \<Rightarrow> w'
                 | (Returned (Some receipt), w') \<Rightarrow> countRebalance w'
                 | (Returned None, w') \<Rightarrow> rebalanceXRP env walletBalances rest w'))))"

text \<open>
  Lines 1038 to 1068: the loop over \<^verbatim>\<open>Object.keys(REBALANCE_THRESHOLDS)\<close>, from the symbols
  still to visit.
\<close>

fun rebalanceTokens :: "rebalanceEnv \<Rightarrow> (string \<times> real) list \<Rightarrow> string list \<Rightarrow> world \<Rightarrow> world" where
  "rebalanceTokens env walletBalances [] w = w"
| "rebalanceTokens env walletBalances (tokenSymbol # rest) w =
     (if tokenSymbol = ''XRP'' then rebalanceTokens env walletBalances rest w
      else if lessNum (map_of walletBalances tokenSymbol) (thresholdOf tokenSymbol) then
        (if lessNum (twice (thresholdOf ''XRP'')) (map_of walletBalances ''XRP'') then
           (case map_of walletBalances ''XRP'' of
              None \<Rightarrow> w
            | Some balance \<Rightarrow>
                (let amountToSwapXRP = toFixed4 (balance * 0.01) in
                 if amountToSwapXRP \<le> 0 then rebalanceTokens env walletBalances rest w
                 else
                   (case withRetry (swapClosure (during env ''XRP'') ''XRP'' tokenSymbol amountToSwapXRP)
                           3 1000 60000
                           (w\<lparr>requests := requests w @ [(''XRP'', tokenSymbol, amountToSwapXRP)]\<rparr>) of
                      (Threw error, w') \<Rightarrow> w'
                    | (Returned (Some receipt), w') \<Rightarrow> countRebalance w'
                    | (Returned None, w') \<Rightarrow> w')))
         else w)
      else rebalanceTokens env walletBalances rest w)"

definition checkAndRebalance :: "rebalanceEnv \<Rightarrow> world \<Rightarrow> world" where
  "checkAndRebalance env w =
     (let walletBalances = getWalletBalances (reads env) in
      if lessNum (map_of walletBalances ''XRP'') (thresholdOf ''XRP'')
      then rebalanceXRP env walletBalances (map fst TOKENS) w
      else rebalanceTokens env walletBalances (map fst REBALANCE_THRESHOLDS) w)"

text \<open>
  The donor test of the two other copies of the program (part_001, line 1021, and
  part_000, line 589): \<^verbatim>\<open>parseFloat(walletBalances[tokenSymbol]) <
  REBALANCE_THRESHOLDS[tokenSymbol] * 2\<close>, the token's own threshold.
\<close>

definition belowTwiceOwnThreshold :: "(string \<times> real) list \<Rightarrow> string \<Rightarrow> bool" where
  "belowTwiceOwnThreshold walletBalances tokenSymbol =
     lessNum (map_of walletBalances tokenSymbol) (twice (thresholdOf tokenSymbol))"

text \<open>
  The donor the loop of \<open>rebalanceXRP\<close> settles on, if any: the first symbol other than
  \<^verbatim>\<open>"XRP"\<close> whose balance is not below twice the XRP threshold and whose swap amount,
  rounded to four decimals, is positive.
\<close>

definition eligibleDonor :: "(string \<times> real) list \<Rightarrow> string \<Rightarrow> bool" where
  "eligibleDonor walletBalances tokenSymbol =
     (tokenSymbol \<noteq> ''XRP''
      \<and> (case map_of walletBalances tokenSymbol of
            None \<Rightarrow> False
          | Some balance \<Rightarrow>
              \<not> lessNum (Some balance) (twice (thresholdOf ''XRP''))
              \<and> 0 < toFixed4 (balance * 0.05)))"

section \<open>startRandomLoop\<close>

datatype action =
  SWAP | ADD_LIQUIDITY | REMOVE_LIQUIDITY | SEND_AND_RECEIVE | RANDOM_SEND | CUSTOM_CONTRACT_CALL

definition ACTION_PROBABILITIES :: "(action \<times> real) list" where
  "ACTION_PROBABILITIES =
     [(SWAP, 40), (ADD_LIQUIDITY, 20), (REMOVE_LIQUIDITY, 10), (SEND_AND_RECEIVE, 15),
      (RANDOM_SEND, 15)]"

text \<open>The number of entries of \<^verbatim>\<open>CUSTOM_CONTRACTS_TO_INTERACT_WITH\<close> (all are commented out).\<close>

definition CUSTOM_CONTRACTS_COUNT :: nat where
  "CUSTOM_CONTRACTS_COUNT = 0"

text \<open>
  \<^verbatim>\<open>selectWeightedAction()\<close>: the loop over \<^verbatim>\<open>ACTION_PROBABILITIES\<close> with the running sum,
  and the fallback \<^verbatim>\<open>"SWAP"\<close>. The argument of \<open>selectWeightedAction\<close> is the draw of
  \<^verbatim>\<open>Math.random()\<close>.
\<close>

fun selectFrom :: "real \<Rightarrow> real \<Rightarrow> (action \<times> real) list \<Rightarrow> action" where
  "selectFrom rand cumulativeProbability [] = SWAP"
| "selectFrom rand cumulativeProbability ((a, p) # rest) =
     (if rand < cumulativeProbability + p then a
      else selectFrom rand (cumulativeProbability + p) rest)"

definition selectWeightedAction :: "real \<Rightarrow> action" where
  "selectWeightedAction random = selectFrom (random * 100) 0 ACTION_PROBABILITIES"

text \<open>
  What one pass of the inner \<^verbatim>\<open>while\<close> loop meets: the world of \<^verbatim>\<open>checkAndRebalance\<close>, the
  draw of \<^verbatim>\<open>Math.random()\<close> for the action, \<^verbatim>\<open>parseFloat(swapAmount)\<close> of
  \<^verbatim>\<open>getCalculatedAmount\<close>, and what the closure of the chosen action does at each attempt
  of \<^verbatim>\<open>withRetry\<close>.
\<close>

record turn =
  rebalance :: rebalanceEnv
  random :: real
  swapAmount :: real
  script :: "nat \<Rightarrow> attempt"

text \<open>\<^verbatim>\<open>if (receipt) activityStats.<counter>++\<close> after \<^verbatim>\<open>receipt = await withRetry(...)\<close>\<close>

definition ifReceipt ::
  "(activityStats \<Rightarrow> activityStats) \<Rightarrow> receipt option outcome \<times> world
     \<Rightarrow> receipt option outcome \<times> world"
where
  "ifReceipt count r =
     (case r of
        (Returned (Some receipt), w) \<Rightarrow> (Returned (Some receipt), w\<lparr>stats := count (stats w)\<rparr>)
      | (other, w) \<Rightarrow> (other, w))"

text \<open>The \<^verbatim>\<open>switch (action)\<close> of lines 1117 to 1180.\<close>

definition dispatch :: "turn \<Rightarrow> action \<Rightarrow> world \<Rightarrow> receipt option outcome \<times> world" where
  "dispatch e a w =
     (case a of
        SWAP \<Rightarrow>
          if filter (\<lambda>t. t \<noteq> ''XRP'') (map fst TOKENS) = []
          then (Threw (Error ''No other tokens for swap.''), w)
          else if swapAmount e > 0
          then ifReceipt (\<lambda>s. s\<lparr>swaps := swaps s + 1\<rparr>) (withRetry (script e) 3 1000 60000 w)
          else (Returned None, w)
      | ADD_LIQUIDITY \<Rightarrow>
          ifReceipt (\<lambda>s. s\<lparr>addsLiquidity := addsLiquidity s + 1\<rparr>)
            (withRetry (script e) 3 1000 60000 w)
      | REMOVE_LIQUIDITY \<Rightarrow>
          ifReceipt (\<lambda>s. s\<lparr>removesLiquidity := removesLiquidity s + 1\<rparr>)
            (withRetry (script e) 3 1000 60000 w)
      | SEND_AND_RECEIVE \<Rightarrow>
          ifReceipt (\<lambda>s. s\<lparr>sendsAndReceives := sendsAndReceives s + 1\<rparr>)
            (withRetry (script e) 3 1000 60000 w)
      | RANDOM_SEND \<Rightarrow>
          ifReceipt (\<lambda>s. s\<lparr>randomSends := randomSends s + 1\<rparr>)
            (withRetry (script e) 3 1000 60000 w)
      | CUSTOM_CONTRACT_CALL \<Rightarrow>
          if CUSTOM_CONTRACTS_COUNT > 0
          then ifReceipt (\<lambda>s. s\<lparr>customContractCalls := customContractCalls s + 1\<rparr>)
                 (withRetry (script e) 3 1000 60000 w)
          else (Returned None, w))"

text \<open>
  The loop \<^verbatim>\<open>while (!actionSuccessful && retriesLeft > 0)\<close> of lines 1108 to 1205, by the
  value of \<^verbatim>\<open>retriesLeft\<close>; \<open>k\<close> counts the passes. A pass without a receipt ends in the
  \<^verbatim>\<open>catch\<close> clause, whether the action threw or the check after the \<^verbatim>\<open>switch\<close> did.
\<close>

fun actionLoop :: "(nat \<Rightarrow> turn) \<Rightarrow> nat \<Rightarrow> nat \<Rightarrow> world \<Rightarrow> world" where
  "actionLoop env 0 k w = w"
| "actionLoop env (Suc retriesLeft) k w =
     (let w1 = checkAndRebalance (rebalance (env k)) w;
          a = selectWeightedAction (random (env k))
      in case dispatch (env k) a w1 of
           (Returned (Some receipt), w2) \<Rightarrow> w2
         | (other, w2) \<Rightarrow>
             actionLoop env retriesLeft (Suc k)
               (if retriesLeft > 0 then w2\<lparr>sleeps := sleeps w2 @ [5000]\<rparr> else w2))"

text \<open>
  One wallet of the \<^verbatim>\<open>for (const wallet of wallets)\<close> loop: its address, the date string
  stored in \<^verbatim>\<open>lastActivity\<close>, and the passes of its inner loop.
\<close>

record visit =
  address :: string
  now :: string
  turns :: "nat \<Rightarrow> turn"

definition processWallet :: "visit \<Rightarrow> world \<Rightarrow> world" where
  "processWallet v w =
     actionLoop (turns v) 3 0
       (w\<lparr>stats := (stats w)\<lparr>lastActivity :=
             (address v, now v) # filter (\<lambda>p. fst p \<noteq> address v) (lastActivity (stats w))\<rparr>\<rparr>)"

fun walletsLoop :: "visit list \<Rightarrow> world \<Rightarrow> world" where
  "walletsLoop [] w = w"
| "walletsLoop (v # vs) w = walletsLoop vs (processWallet v w)"

text \<open>
  One iteration of \<^verbatim>\<open>while (Date.now() - startTime < twentyFourHours)\<close>: the wallets, then
  \<^verbatim>\<open>saveState()\<close> (which only logs) and \<^verbatim>\<open>delay(sleepTime)\<close>. The clock decides how many
  iterations run; each sleeps at least 120 seconds, so they are finitely many.
\<close>

record cycle =
  visits :: "visit list"
  sleepTime :: int

fun startRandomLoop :: "cycle list \<Rightarrow> world \<Rightarrow> world" where
  "startRandomLoop [] w = w"
| "startRandomLoop (c # cs) w =
     startRandomLoop cs
       (let w' = walletsLoop (visits c) w in w'\<lparr>sleeps := sleeps w' @ [sleepTime c]\<rparr>)"

section \<open>Monotone counters\<close>

text \<open>The eight counters of \<^verbatim>\<open>activityStats\<close>, in the order of their declaration.\<close>

definition counters :: "activityStats \<Rightarrow> nat list" where
  "counters s =
     [totalTransactions s, swaps s, addsLiquidity s, removesLiquidity s, sendsAndReceives s,
      randomSends s, customContractCalls s, rebalances s]"

text \<open>One statement's effect on the counters: none, or one counter goes up by one.\<close>

definition statement :: "activityStats \<Rightarrow> activityStats \<Rightarrow> bool" where
  "statement s s' =
     (counters s' = counters s
      \<or> (\<exists>k < length (counters s). counters s' = (counters s)[k := counters s ! k + 1]))"

definition countersLe :: "activityStats \<Rightarrow> activityStats \<Rightarrow> bool" where
  "countersLe s s' = list_all2 (\<le>) (counters s) (counters s')"

section \<open>Example scripts\<close>

definition exampleFeeData :: feeData where
  "exampleFeeData = \<lparr>fd_gasPrice = Some 1000, fd_maxFeePerGas = Some 3000,
     fd_maxPriorityFeePerGas = Some 1000, fd_lastBaseFeePerGas = None\<rparr>"

definition exampleReceipt :: receipt where
  "exampleReceipt = \<lparr>status = Some 1, blockNumber = 7\<rparr>"

definition confirmedTx :: tx where
  "confirmedTx = \<lparr>hash = Some ''0xabc'', wait = Settles 2000 (Inr (Some exampleReceipt))\<rparr>"

definition stalledTx :: tx where
  "stalledTx = \<lparr>hash = Some ''0xdef'', wait = Pending\<rparr>"

text \<open>Every attempt sends a transaction that confirms after two seconds.\<close>

definition confirmsAtOnce :: "nat \<Rightarrow> attempt" where
  "confirmsAtOnce i = \<lparr>feeDataRead = Inr exampleFeeData, func = (\<lambda>g. Inr (Some confirmedTx))\<rparr>"


text \<open>The closure throws before sending, at every attempt.\<close>

definition alwaysInsufficient :: "nat \<Rightarrow> attempt" where
  "alwaysInsufficient i =
     \<lparr>feeDataRead = Inr exampleFeeData,
      func = (\<lambda>g. Inl (Error ''Insufficient RISE balance.''))\<rparr>"

text \<open>Every attempt sends a transaction that never confirms.\<close>

definition alwaysStalled :: "nat \<Rightarrow> attempt" where
  "alwaysStalled i = \<lparr>feeDataRead = Inr exampleFeeData, func = (\<lambda>g. Inr (Some stalledTx))\<rparr>"

text \<open>
  A wallet with 10 XRP and a million smallest units of the RISE pool share, on a chain
  whose router cannot quote; every submission is accepted.
\<close>

definition exampleChain :: chain where
  "exampleChain =
     \<lparr>nativeBalance = Inr 10,
      tokenBalance = (\<lambda>s. Inr 1),
      decimals = (\<lambda>s. Inr 18),
      getAmountsOut = (\<lambda>a p. Inl (Error ''execution reverted'')),
      allowance = (\<lambda>s. Inr 1000000),
      balanceOf = (\<lambda>s. Inr 1000000),
      send = (\<lambda>c. Inr confirmedTx),
      approvalWait = Inr ()\<rparr>"

text \<open>
  A wallet whose XRP is below its threshold of 0.01, with no WXRP, 0.012 RISE (more than
  twice the RISE threshold of 0.005) and 20 RIBBIT.
\<close>

definition lowXRPChain :: chain where
  "lowXRPChain =
     exampleChain\<lparr>nativeBalance := Inr 0.001,
                  tokenBalance := (\<lambda>s. if s = ''WXRP'' then Inr 0
                                       else if s = ''RISE'' then Inr 0.012 else Inr 20)\<rparr>"

definition lowXRPEnv :: rebalanceEnv where
  "lowXRPEnv = \<lparr>reads = lowXRPChain, during = (\<lambda>tokenSymbol i. (Inr exampleFeeData, lowXRPChain))\<rparr>"

text \<open>
  One cycle over one funded wallet: no rebalance is due, the draw 0.5 selects
  \<^verbatim>\<open>ADD_LIQUIDITY\<close>, and the transaction confirms at the first attempt.
\<close>

definition exampleTurn :: "nat \<Rightarrow> turn" where
  "exampleTurn k =
     \<lparr>rebalance = \<lparr>reads = exampleChain, during = (\<lambda>tokenSymbol i. (Inr exampleFeeData, exampleChain))\<rparr>,
      random = 0.5, swapAmount = 0.001, script = confirmsAtOnce\<rparr>"

definition exampleCycle :: cycle where
  "exampleCycle =
     \<lparr>visits = [\<lparr>address = ''0x01'', now = ''1/1/2026, 10:00:00 AM'', turns = exampleTurn\<rparr>],
      sleepTime = 120000\<rparr>"

section \<open>Theorems\<close>

subsection \<open>One attempt and the retry loop\<close>

lemma scaledBuffer_eq: "scaledBuffer i = 500 + 100 * int i"
proof -
  have "buffer i * 100 = of_int (500 + 100 * int i)"
    by (simp add: buffer_def algebra_simps)
  then show ?thesis
    unfolding scaledBuffer_def by (simp only: round_of_int)
qed

lemma tryBlock_fst: "fst (tryBlock a t i w) = attemptResult a t i"
  by (simp add: attemptResult_def tryBlock_def Let_def split: sum.splits option.splits)


lemma tryBlock_snd:
  "snd (tryBlock a t i w) =
     w\<lparr>estimates := estimates w @ [i],
       invocations := invocations w @ (if isl (getGasPrice (feeDataRead a) i) then [] else [i]),
       stats := (stats w)\<lparr>totalTransactions :=
                   totalTransactions (stats w) + (if sendsTx a i then 1 else 0)\<rparr>\<rparr>"
  by (simp add: tryBlock_def sendsTx_def Let_def split: sum.splits option.splits)

lemma withRetry_from_step:
  assumes "int i < n - 1" and "attemptResult (env i) t i = Inl e"
  shows "withRetry_from env n d t i w =
           withRetry_from env n d t (Suc i)
             ((snd (tryBlock (env i) t i w))
                \<lparr>sleeps := sleeps (snd (tryBlock (env i) t i w)) @ [d * (int i + 1)]\<rparr>)"
proof -
  obtain x w' where tb: "tryBlock (env i) t i w = (x, w')" by (cases "tryBlock (env i) t i w")
  with assms(2) have "x = Inl e" using tryBlock_fst [of "env i" t i w] by simp
  with tb assms(1) show ?thesis
    by (subst withRetry_from.simps) simp
qed

lemma withRetry_from_last:
  assumes "int i < n" and "\<not> int i < n - 1" and "attemptResult (env i) t i = Inl e"
  shows "withRetry_from env n d t i w = (Threw e, snd (tryBlock (env i) t i w))"
proof -
  obtain x w' where tb: "tryBlock (env i) t i w = (x, w')" by (cases "tryBlock (env i) t i w")
  with assms(3) have "x = Inl e" using tryBlock_fst [of "env i" t i w] by simp
  with tb assms(1,2) show ?thesis
    by (subst withRetry_from.simps) simp
qed

lemma withRetry_from_success:
  assumes "int i < n" and "attemptResult (env i) t i = Inr r"
  shows "withRetry_from env n d t i w = (Returned (Some r), snd (tryBlock (env i) t i w))"
proof -
  obtain x w' where tb: "tryBlock (env i) t i w = (x, w')" by (cases "tryBlock (env i) t i w")
  with assms(2) have "x = Inr r" using tryBlock_fst [of "env i" t i w] by simp
  with tb assms(1) show ?thesis
    by (subst withRetry_from.simps) simp
qed

lemma withRetry_from_none:
  assumes "\<not> int i < n"
  shows "withRetry_from env n d t i w = (Returned None, w)"
  using assms by (subst withRetry_from.simps) simp

lemma withRetry_from_all_fail:
  assumes "\<forall>j. i \<le> j \<and> int j < n \<longrightarrow> attemptResult (env j) t j = Inl (err j)"
    and "int i < n"
  shows "withRetry_from env n d t i w =
           (Threw (err (nat n - 1)),
            w\<lparr>sleeps := sleeps w @ map (\<lambda>j. d * (int j + 1)) [i..<nat n - 1],
              estimates := estimates w @ [i..<nat n],
              invocations := invocations w
                 @ filter (\<lambda>j. \<not> isl (getGasPrice (feeDataRead (env j)) j)) [i..<nat n],
              stats := (stats w)\<lparr>totalTransactions := totalTransactions (stats w)
                 + length (filter (\<lambda>j. sendsTx (env j) j) [i..<nat n])\<rparr>\<rparr>)"
  using assms
proof (induction k \<equiv> "nat n - i" arbitrary: i w)
  case 0
  then show ?case by simp
next
  case (Suc k)
  have res: "attemptResult (env i) t i = Inl (err i)" using Suc.prems by simp
  have l2: "[i..<nat n] = i # [Suc i..<nat n]"
    using Suc.prems(2) by (intro upt_conv_Cons) linarith
  show ?case
  proof (cases "int i < n - 1")
    case True
    let ?w' = "(snd (tryBlock (env i) t i w))
                \<lparr>sleeps := sleeps (snd (tryBlock (env i) t i w)) @ [d * (int i + 1)]\<rparr>"
    have k: "k = nat n - Suc i" using Suc.hyps(2) by simp
    have all: "\<forall>j. Suc i \<le> j \<and> int j < n \<longrightarrow> attemptResult (env j) t j = Inl (err j)"
      using Suc.prems(1) by simp
    have lt: "int (Suc i) < n" using True by simp
    have l1: "[i..<nat n - 1] = i # [Suc i..<nat n - 1]"
      using True by (intro upt_conv_Cons) linarith
    show ?thesis
      unfolding withRetry_from_step [where env=env and i=i, OF True res] Suc.hyps(1) [OF k all lt]
      using l1 by (simp add: l2 tryBlock_snd)
  next
    case False
    have eq: "nat n - 1 = i" using False Suc.prems(2) by linarith
    have "nat n = Suc i" using eq Suc.prems(2) by linarith
    then have l3: "[Suc i..<nat n] = []" by simp
    show ?thesis
      unfolding withRetry_from_last [where env=env and i=i, OF Suc.prems(2) False res]
      using eq by (simp add: l2 l3 tryBlock_snd)
  qed
qed

lemma withRetry_from_counts:
  "\<exists>run. estimates (snd (withRetry_from env n d t i w)) = estimates w @ run
       \<and> stats (snd (withRetry_from env n d t i w))
           = (stats w)\<lparr>totalTransactions := totalTransactions (stats w)
                 + length (filter (\<lambda>j. sendsTx (env j) j) run)\<rparr>"
proof (induction k \<equiv> "nat (n - int i)" arbitrary: i w)
  case 0
  then have "\<not> int i < n" by simp
  then show ?case by (simp add: withRetry_from_none)
next
  case (Suc k)
  then have lt: "int i < n" by linarith
  let ?w1 = "snd (tryBlock (env i) t i w)"
  show ?case
  proof (cases "attemptResult (env i) t i")
    case (Inr r)
    show ?thesis
      unfolding withRetry_from_success [where env=env and i=i, OF lt Inr]
      by (rule exI [of _ "[i]"]) (simp add: tryBlock_snd)
  next
    case (Inl e)
    show ?thesis
    proof (cases "int i < n - 1")
      case False
      show ?thesis
        unfolding withRetry_from_last [where env=env and i=i, OF lt False Inl]
        by (rule exI [of _ "[i]"]) (simp add: tryBlock_snd)
    next
      case True
      let ?w' = "?w1\<lparr>sleeps := sleeps ?w1 @ [d * (int i + 1)]\<rparr>"
      have k: "k = nat (n - int (Suc i))" using Suc.hyps(2) by simp
      from Suc.hyps(1) [OF k, of ?w'] obtain run where
        run: "estimates (snd (withRetry_from env n d t (Suc i) ?w')) = estimates ?w' @ run"
          "stats (snd (withRetry_from env n d t (Suc i) ?w'))
           = (stats ?w')\<lparr>totalTransactions := totalTransactions (stats ?w')
                 + length (filter (\<lambda>j. sendsTx (env j) j) run)\<rparr>"
        by blast
      have e: "estimates ?w' = estimates w @ [i]"
        and st: "stats ?w' = (stats w)\<lparr>totalTransactions :=
                   totalTransactions (stats w) + (if sendsTx (env i) i then 1 else 0)\<rparr>"
        by (simp_all add: tryBlock_snd)
      show ?thesis
        unfolding withRetry_from_step [where env=env and i=i, OF True Inl]
        by (rule exI [of _ "i # run"]) (simp add: run e st)
    qed
  qed
qed

subsection \<open>The gas quote\<close>

lemma sdiv_scaled_exact: "(v * scaledBuffer i) sdiv 100 = v * (5 + int i)"
proof -
  define x where "x = v * (5 + int i)"
  have "v * scaledBuffer i = x * 100"
    by (simp add: x_def scaledBuffer_eq algebra_simps)
  then have "(v * scaledBuffer i) sdiv 100 = (x * 100) sdiv 100"
    by (simp only:)
  also have "\<dots> = sgn x * \<bar>x\<bar>"
    by (simp add: signed_divide_int_def sgn_mult abs_mult)
  also have "\<dots> = x"
    by (simp add: mult_sgn_abs)
  finally show ?thesis
    by (simp only: x_def)
qed

lemma quote_exact:
  "quote fd i =
     (if truthy (fd_maxFeePerGas fd) \<and> truthy (fd_maxPriorityFeePerGas fd)
      then EIP1559 (or_default (fd_lastBaseFeePerGas fd) (gwei 1) * (5 + int i)
                      + the (fd_maxPriorityFeePerGas fd) * (5 + int i))
                   (the (fd_maxPriorityFeePerGas fd) * (5 + int i))
      else Legacy (or_default (fd_gasPrice fd) (gwei 20) * (5 + int i)))"
  by (simp add: quote_def Let_def sdiv_scaled_exact)

lemma or_default_pos: "unsigned a \<Longrightarrow> 0 < d \<Longrightarrow> 0 < or_default a d"
  by (cases a) auto

text \<open>
  Claim C4. The buffer multiplier of \<^verbatim>\<open>getGasPrice\<close> is \<open>5 + attemptIndex\<close>, so it never
  decreases as the attempt index grows; and when the fee data holds unsigned quantities,
  every field of the quote that \<^verbatim>\<open>getGasPrice\<close> returns is a strictly positive integer, in
  the EIP-1559 shape and in the legacy shape.
\<close>

theorem getGasPrice_buffer_monotone_and_quote_positive:
  "buffer i = 5 + real i
   \<and> (i \<le> j \<longrightarrow> buffer i \<le> buffer j)
   \<and> (unsignedFeeData fd \<and> getGasPrice (Inr fd) i = Inr q \<longrightarrow> positiveQuote q)"
proof (intro conjI impI)
  show "buffer i = 5 + real i" by (simp add: buffer_def)
  show "buffer i \<le> buffer j" if "i \<le> j" using that by (simp add: buffer_def)
  show "positiveQuote q" if h: "unsignedFeeData fd \<and> getGasPrice (Inr fd) i = Inr q"
  proof -
    have q: "q = quote fd i" using h by (simp add: getGasPrice_def)
    have u: "unsigned (fd_gasPrice fd)" "unsigned (fd_maxPriorityFeePerGas fd)"
      "unsigned (fd_lastBaseFeePerGas fd)"
      using h by (simp_all add: unsignedFeeData_def)
    have b: "0 < or_default (fd_lastBaseFeePerGas fd) (gwei 1)"
      and g: "0 < or_default (fd_gasPrice fd) (gwei 20)"
      using u by (simp_all add: or_default_pos gwei_def)
    show ?thesis
    proof (cases "truthy (fd_maxFeePerGas fd) \<and> truthy (fd_maxPriorityFeePerGas fd)")
      case True
      then obtain p where p: "fd_maxPriorityFeePerGas fd = Some p" "p \<noteq> 0"
        by (cases "fd_maxPriorityFeePerGas fd") auto
      with u(2) have "0 < p" by simp
      then have "0 < p * (5 + int i)" by simp
      moreover have "0 < or_default (fd_lastBaseFeePerGas fd) (gwei 1) * (5 + int i)"
        using b by simp
      ultimately show ?thesis using True p by (simp add: q quote_exact)
    next
      case False
      have "0 < or_default (fd_gasPrice fd) (gwei 20) * (5 + int i)" using g by simp
      then show ?thesis using False by (auto simp add: q quote_exact)
    qed
  qed
qed

theorem getGasPrice_buffer_monotone_and_quote_positive_witness:
  "(0::nat) \<le> 1 \<and> buffer 0 \<le> buffer 1 \<and> unsignedFeeData exampleFeeData
   \<and> getGasPrice (Inr exampleFeeData) 0 = Inr (EIP1559 5000005000 5000)
   \<and> positiveQuote (EIP1559 5000005000 5000)"
  using getGasPrice_buffer_monotone_and_quote_positive
          [where i=0 and j=1 and fd=exampleFeeData and q="EIP1559 5000005000 5000"]
  by (simp add: unsignedFeeData_def exampleFeeData_def getGasPrice_def quote_exact gwei_def)



subsection \<open>The transaction counter of withRetry\<close>

lemma attemptResult_Inr_sendsTx: "attemptResult a t i = Inr r \<Longrightarrow> sendsTx a i"
  by (auto simp: attemptResult_def tryBlock_def sendsTx_def Let_def
      split: sum.splits option.splits if_splits)



lemma confirmsE:
  assumes "confirms a t i r"
  obtains fd x h ms where "feeDataRead a = Inr fd" and "func a (quote fd i) = Inr (Some x)"
    and "hash x = Some h" and "wait x = Settles ms (Inr (Some r))" and "int ms \<le> t"
    and "status r = Some 1"
proof -
  obtain fd where fd: "feeDataRead a = Inr fd"
    using assms by (cases "feeDataRead a") (simp_all add: confirms_def)
  obtain x where x: "func a (quote fd i) = Inr (Some x)"
    using assms fd by (cases "func a (quote fd i)") (auto simp: confirms_def split: option.splits)
  have c: "hash x \<noteq> None \<and>
           (case wait x of
              Settles ms (Inr (Some r')) \<Rightarrow> int ms \<le> t \<and> r' = r \<and> status r = Some 1
            | _ \<Rightarrow> False)"
    using assms fd x by (simp add: confirms_def)
  then obtain h where h: "hash x = Some h" by auto
  obtain ms res where w: "wait x = Settles ms res"
    using c by (cases "wait x") auto
  obtain ro where res: "res = Inr ro"
    using c w by (cases res) auto
  obtain r' where ro: "ro = Some r'"
    using c w res by (cases ro) auto
  have "int ms \<le> t \<and> r' = r \<and> status r = Some 1"
    using c w res ro by simp
  then show ?thesis
    using that [of fd x h ms] fd x h w res ro by simp
qed

lemma confirms_attemptResult: "confirms a t i r \<Longrightarrow> attemptResult a t i = Inr r"
  by (erule confirmsE)
     (simp add: attemptResult_def tryBlock_def getGasPrice_def Let_def)

lemma fails_attemptResult: "fails a t i e \<Longrightarrow> attemptResult a t i = Inl e"
  by (induction rule: fails.induct)
     (auto simp: attemptResult_def tryBlock_def getGasPrice_def Let_def)

lemma withRetry_counts:
  "stats (snd (withRetry env n d t w)) =
     (stats w)\<lparr>totalTransactions := totalTransactions (stats w)
        + length (filter (\<lambda>i. sendsTx (env i) i)
                    (drop (length (estimates w)) (estimates (snd (withRetry env n d t w)))))\<rparr>"
proof -
  obtain run where
    "estimates (snd (withRetry_from env n d t 0 w)) = estimates w @ run"
    "stats (snd (withRetry_from env n d t 0 w))
           = (stats w)\<lparr>totalTransactions := totalTransactions (stats w)
                 + length (filter (\<lambda>j. sendsTx (env j) j) run)\<rparr>"
    using withRetry_from_counts [of env n d t 0 w] by blast
  then show ?thesis by (simp add: withRetry_def)
qed

lemma withRetry_first_success:
  assumes "0 < n" and "attemptResult (env 0) t 0 = Inr r"
  shows "withRetry env n d t w =
           (Returned (Some r),
            w\<lparr>estimates := estimates w @ [0], invocations := invocations w @ [0],
              stats := (stats w)\<lparr>totalTransactions := totalTransactions (stats w) + 1\<rparr>\<rparr>)"
proof -
  have lt: "int 0 < n" using assms(1) by simp
  have s: "sendsTx (env 0) 0" using assms(2) by (rule attemptResult_Inr_sendsTx)
  then have g: "\<not> isl (getGasPrice (feeDataRead (env 0)) 0)"
    by (auto simp: sendsTx_def split: sum.splits)
  show ?thesis
    unfolding withRetry_def withRetry_from_success [where env=env and i=0, OF lt assms(2)]
    using s g by (simp add: tryBlock_snd)
qed



lemma confirmsAtOnce_confirms: "confirms (confirmsAtOnce i) 60000 i exampleReceipt"
  by (simp add: confirms_def confirmsAtOnce_def confirmedTx_def exampleReceipt_def)

lemma confirmsAtOnce_result: "attemptResult (confirmsAtOnce i) 60000 i = Inr exampleReceipt"
  by (rule confirms_attemptResult) (rule confirmsAtOnce_confirms)




text \<open>
  Claim C9. With \<^verbatim>\<open>maxRetries\<close> zero or negative the loop body never runs:
  \<^verbatim>\<open>withRetry\<close> returns null, and it neither calls \<^verbatim>\<open>getGasPrice\<close> nor the closure nor
  \<^verbatim>\<open>delay\<close>, nor changes a counter (the world is returned as it was).
\<close>

theorem withRetry_without_attempts:
  "maxRetries \<le> 0 \<Longrightarrow> withRetry env maxRetries initialDelayMs confirmationTimeoutMs w = (Returned None, w)"
  unfolding withRetry_def by (rule withRetry_from_none) simp

theorem withRetry_without_attempts_witness:
  "(0::int) \<le> 0 \<and> withRetry confirmsAtOnce 0 1000 60000 initialWorld = (Returned None, initialWorld)
   \<and> withRetry confirmsAtOnce (- 2) 1000 60000 initialWorld = (Returned None, initialWorld)"
  using withRetry_without_attempts [of 0 confirmsAtOnce 1000 60000 initialWorld]
        withRetry_without_attempts [of "- 2" confirmsAtOnce 1000 60000 initialWorld]
  by simp

subsection \<open>Backoff, exhaustion, and closures that throw\<close>

lemma withRetry_from_extends:
  "\<exists>ss es. sleeps (snd (withRetry_from env n d t i w)) = sleeps w @ ss
         \<and> estimates (snd (withRetry_from env n d t i w)) = estimates w @ es"
proof (induction k \<equiv> "nat (n - int i)" arbitrary: i w)
  case 0
  then have "\<not> int i < n" by simp
  then show ?case by (simp add: withRetry_from_none)
next
  case (Suc k)
  then have lt: "int i < n" by linarith
  show ?case
  proof (cases "attemptResult (env i) t i")
    case (Inr r)
    show ?thesis
      unfolding withRetry_from_success [where env=env and i=i, OF lt Inr]
      by (simp add: tryBlock_snd)
  next
    case (Inl e)
    show ?thesis
    proof (cases "int i < n - 1")
      case False
      show ?thesis
        unfolding withRetry_from_last [where env=env and i=i, OF lt False Inl]
        by (simp add: tryBlock_snd)
    next
      case True
      let ?w1 = "snd (tryBlock (env i) t i w)"
      let ?w' = "?w1\<lparr>sleeps := sleeps ?w1 @ [d * (int i + 1)]\<rparr>"
      have k: "k = nat (n - int (Suc i))" using Suc.hyps(2) by simp
      from Suc.hyps(1) [OF k, of ?w'] obtain ss es where
        "sleeps (snd (withRetry_from env n d t (Suc i) ?w')) = sleeps ?w' @ ss"
        "estimates (snd (withRetry_from env n d t (Suc i) ?w')) = estimates ?w' @ es"
        by blast
      then show ?thesis
        unfolding withRetry_from_step [where env=env and i=i, OF True Inl]
        by (simp add: tryBlock_snd)
    qed
  qed
qed

lemma withRetry_from_prefix:
  assumes "\<forall>j. i \<le> j \<and> j < i + k \<longrightarrow> attemptResult (env j) t j = Inl (err j)"
    and "int (i + k) < n"
  shows "\<exists>ss es.
           sleeps (snd (withRetry_from env n d t i w))
             = sleeps w @ map (\<lambda>j. d * (int j + 1)) [i..<i + k] @ ss
         \<and> estimates (snd (withRetry_from env n d t i w))
             = estimates w @ [i..<Suc (i + k)] @ es"
  using assms
proof (induction k arbitrary: i w)
  case 0
  then have lt: "int i < n" by simp
  let ?w1 = "snd (tryBlock (env i) t i w)"
  show ?case
  proof (cases "attemptResult (env i) t i")
    case (Inr r)
    show ?thesis
      unfolding withRetry_from_success [where env=env and i=i, OF lt Inr]
      by (simp add: tryBlock_snd)
  next
    case (Inl e)
    show ?thesis
    proof (cases "int i < n - 1")
      case False
      show ?thesis
        unfolding withRetry_from_last [where env=env and i=i, OF lt False Inl]
        by (simp add: tryBlock_snd)
    next
      case True
      let ?w' = "?w1\<lparr>sleeps := sleeps ?w1 @ [d * (int i + 1)]\<rparr>"
      from withRetry_from_extends [of env n d t "Suc i" ?w'] obtain ss es where
        "sleeps (snd (withRetry_from env n d t (Suc i) ?w')) = sleeps ?w' @ ss"
        "estimates (snd (withRetry_from env n d t (Suc i) ?w')) = estimates ?w' @ es"
        by blast
      then show ?thesis
        unfolding withRetry_from_step [where env=env and i=i, OF True Inl]
        by (simp add: tryBlock_snd)
    qed
  qed
next
  case (Suc k)
  have res: "attemptResult (env i) t i = Inl (err i)" using Suc.prems(1) by simp
  have more: "int i < n - 1" using Suc.prems(2) by simp
  let ?w1 = "snd (tryBlock (env i) t i w)"
  let ?w' = "?w1\<lparr>sleeps := sleeps ?w1 @ [d * (int i + 1)]\<rparr>"
  have all: "\<forall>j. Suc i \<le> j \<and> j < Suc i + k \<longrightarrow> attemptResult (env j) t j = Inl (err j)"
    using Suc.prems(1) by simp
  have lt: "int (Suc i + k) < n" using Suc.prems(2) by simp
  from Suc.IH [OF all lt, of ?w'] obtain ss es where
    a: "sleeps (snd (withRetry_from env n d t (Suc i) ?w'))
          = sleeps ?w' @ map (\<lambda>j. d * (int j + 1)) [Suc i..<Suc i + k] @ ss"
    and b: "estimates (snd (withRetry_from env n d t (Suc i) ?w'))
          = estimates ?w' @ [Suc i..<Suc (Suc i + k)] @ es"
    by blast
  have l1: "[i..<i + Suc k] = i # [Suc i..<Suc i + k]"
    by (simp add: upt_conv_Cons)
  have l2: "[i..<Suc (i + Suc k)] = i # [Suc i..<Suc (Suc i + k)]"
    by (simp add: upt_conv_Cons)
  show ?case
    unfolding withRetry_from_step [where env=env and i=i, OF more res] a b l1 l2
    by (simp add: tryBlock_snd)
qed

lemma quote_raised: "unsignedFeeData fd \<Longrightarrow> quoteLess (quote fd i) (quote fd (Suc i))"
proof -
  assume u: "unsignedFeeData fd"
  have b: "0 < or_default (fd_lastBaseFeePerGas fd) (gwei 1)"
    and g: "0 < or_default (fd_gasPrice fd) (gwei 20)"
    using u by (simp_all add: unsignedFeeData_def or_default_pos gwei_def)
  show ?thesis
  proof (cases "truthy (fd_maxFeePerGas fd) \<and> truthy (fd_maxPriorityFeePerGas fd)")
    case True
    then obtain p where p: "fd_maxPriorityFeePerGas fd = Some p" "p \<noteq> 0"
      by (cases "fd_maxPriorityFeePerGas fd") auto
    with u have "0 < p" by (simp add: unsignedFeeData_def)
    then show ?thesis using True p b by (simp add: quote_exact algebra_simps)
  next
    case False
    then show ?thesis using g by (auto simp: quote_exact algebra_simps)
  qed
qed

text \<open>
  Claim C3. When the first \<open>k\<close> attempts fail and attempts remain (\<open>k < n\<close>),
  \<^verbatim>\<open>withRetry\<close> has slept \<open>initialDelayMs * (i + 1)\<close> after each failed attempt \<open>i\<close> and
  has asked for the gas price at the indices \<open>0, ..., k\<close>: it retries with the attempt
  index raised by one, which raises the buffer by one and every field of the quote. When
  all \<open>n \<ge> 1\<close> attempts fail, it has slept \<open>initialDelayMs * 1, ...,
  initialDelayMs * (n - 1)\<close> and throws the error of the last attempt. A failed attempt
  is told by what the fee-data read, the closure and the transaction do.
\<close>

theorem withRetry_linear_backoff_then_last_error:
  "(k < n \<and> (\<forall>j<k. fails (env j) t j (err j)) \<longrightarrow>
      (\<exists>later. sleeps (snd (withRetry env (int n) d t w))
                 = sleeps w @ map (\<lambda>j. d * (int j + 1)) [0..<k] @ later)
      \<and> (\<exists>later. estimates (snd (withRetry env (int n) d t w))
                 = estimates w @ [0..<Suc k] @ later))
   \<and> buffer (Suc i) = buffer i + 1
   \<and> (unsignedFeeData fd \<longrightarrow> quoteLess (quote fd i) (quote fd (Suc i)))
   \<and> (0 < n \<and> (\<forall>j<n. fails (env j) t j (err j)) \<longrightarrow>
        fst (withRetry env (int n) d t w) = Threw (err (n - 1))
        \<and> sleeps (snd (withRetry env (int n) d t w))
            = sleeps w @ map (\<lambda>j. d * (int j + 1)) [0..<n - 1]
        \<and> estimates (snd (withRetry env (int n) d t w)) = estimates w @ [0..<n])"
proof (intro conjI impI)
  assume h: "k < n \<and> (\<forall>j<k. fails (env j) t j (err j))"
  then have all: "\<forall>j. 0 \<le> j \<and> j < 0 + k \<longrightarrow> attemptResult (env j) t j = Inl (err j)"
    by (simp add: fails_attemptResult)
  have lt: "int (0 + k) < int n" using h by simp
  from withRetry_from_prefix [OF all lt, of d w] obtain ss es where
    a: "sleeps (snd (withRetry_from env (int n) d t 0 w))
          = sleeps w @ map (\<lambda>j. d * (int j + 1)) [0..<0 + k] @ ss"
    and b: "estimates (snd (withRetry_from env (int n) d t 0 w))
          = estimates w @ [0..<Suc (0 + k)] @ es"
    by blast
  show "\<exists>later. sleeps (snd (withRetry env (int n) d t w))
                 = sleeps w @ map (\<lambda>j. d * (int j + 1)) [0..<k] @ later"
    unfolding withRetry_def using a by auto
  show "\<exists>later. estimates (snd (withRetry env (int n) d t w))
                 = estimates w @ [0..<Suc k] @ later"
    unfolding withRetry_def using b by auto
next
  show "buffer (Suc i) = buffer i + 1" by (simp add: buffer_def)
next
  assume "unsignedFeeData fd"
  then show "quoteLess (quote fd i) (quote fd (Suc i))" by (rule quote_raised)
next
  assume h: "0 < n \<and> (\<forall>j<n. fails (env j) t j (err j))"
  then have all: "\<forall>j. 0 \<le> j \<and> int j < int n \<longrightarrow> attemptResult (env j) t j = Inl (err j)"
    and lt: "int 0 < int n" by (simp_all add: fails_attemptResult)
  note eq = withRetry_from_all_fail [where env=env and i=0 and n="int n", OF all lt, of d w]
  show "fst (withRetry env (int n) d t w) = Threw (err (n - 1))"
    unfolding withRetry_def eq by simp
  show "sleeps (snd (withRetry env (int n) d t w))
            = sleeps w @ map (\<lambda>j. d * (int j + 1)) [0..<n - 1]"
    unfolding withRetry_def eq by simp
  show "estimates (snd (withRetry env (int n) d t w)) = estimates w @ [0..<n]"
    unfolding withRetry_def eq by simp
qed

lemma alwaysStalled_fails:
  "fails (alwaysStalled j) 60000 j (Error ''Transaction confirmation timed out.'')"
  by (rule fails.neverSettles [where fd=exampleFeeData and x=stalledTx and h="''0xdef''"])
     (simp_all add: alwaysStalled_def stalledTx_def)

lemma upt_3: "[0..<3] = [0, 1, 2]" "[0..<2] = [0, 1]"
  by (simp_all add: upt_rec numeral_eq_Suc)

theorem withRetry_linear_backoff_then_last_error_witness:
  "(1::nat) < 3
   \<and> fails (alwaysStalled 0) 60000 0 (Error ''Transaction confirmation timed out.'')
   \<and> fails (alwaysStalled 1) 60000 1 (Error ''Transaction confirmation timed out.'')
   \<and> fails (alwaysStalled 2) 60000 2 (Error ''Transaction confirmation timed out.'')
   \<and> (\<exists>later. sleeps (snd (withRetry alwaysStalled 3 1000 60000 initialWorld)) = 1000 # later)
   \<and> (\<exists>later. estimates (snd (withRetry alwaysStalled 3 1000 60000 initialWorld))
                = 0 # 1 # later)
   \<and> unsignedFeeData exampleFeeData
   \<and> quoteLess (quote exampleFeeData 0) (quote exampleFeeData 1)
   \<and> fst (withRetry alwaysStalled 3 1000 60000 initialWorld)
       = Threw (Error ''Transaction confirmation timed out.'')
   \<and> sleeps (snd (withRetry alwaysStalled 3 1000 60000 initialWorld)) = [1000, 2000]
   \<and> estimates (snd (withRetry alwaysStalled 3 1000 60000 initialWorld)) = [0, 1, 2]"
proof -
  note t = withRetry_linear_backoff_then_last_error
          [where k=1 and n=3 and env=alwaysStalled and t=60000 and d=1000
             and w=initialWorld and i=0 and fd=exampleFeeData
             and err="\<lambda>j. Error ''Transaction confirmation timed out.''"]
  have u: "unsignedFeeData exampleFeeData"
    by (simp add: unsignedFeeData_def exampleFeeData_def)
  have q: "quoteLess (quote exampleFeeData 0) (quote exampleFeeData 1)"
    using t u by simp
  have f: "fst (withRetry alwaysStalled 3 1000 60000 initialWorld)
       = Threw (Error ''Transaction confirmation timed out.'')"
    and s: "sleeps (snd (withRetry alwaysStalled 3 1000 60000 initialWorld)) = [1000, 2000]"
    and e: "estimates (snd (withRetry alwaysStalled 3 1000 60000 initialWorld)) = [0, 1, 2]"
    using t alwaysStalled_fails by (simp_all add: upt_3 initialWorld_def)
  have s1: "\<exists>later. sleeps (snd (withRetry alwaysStalled 3 1000 60000 initialWorld)) = 1000 # later"
    and e1: "\<exists>later. estimates (snd (withRetry alwaysStalled 3 1000 60000 initialWorld))
                = 0 # 1 # later"
    using s e by simp_all
  show ?thesis
    using alwaysStalled_fails u q f s e s1 e1 by simp
qed

lemma never_sends:
  assumes "\<forall>i g. \<exists>e. func (env i) g = Inl e"
  shows "\<not> sendsTx (env i) i"
proof -
  have "func (env i) g \<noteq> Inr x" for g x
    using assms by (metis sum.distinct(1))
  then show ?thesis
    by (auto simp: sendsTx_def split: sum.splits)
qed

lemma closure_throws_result:
  assumes "feeDataRead a = Inr fd" and "\<forall>g. func a g = Inl e"
  shows "attemptResult a t i = Inl e"
  using assms by (simp add: attemptResult_def tryBlock_def getGasPrice_def Let_def)

text \<open>
  Claim C2, as amended. When the closure throws at every attempt, \<^verbatim>\<open>withRetry\<close> leaves
  every counter as it was; and when moreover the fee-data reads succeed, it runs all
  \<open>n = maxRetries\<close> attempts, sleeping \<open>initialDelayMs * (i + 1)\<close> after each but the last,
  and then throws the error the closure threw at the last attempt. It stops after one
  attempt only when \<open>maxRetries\<close> is 1.
\<close>

theorem withRetry_closure_always_throws:
  "((\<forall>i g. \<exists>e. func (env i) g = Inl e) \<longrightarrow>
      stats (snd (withRetry env maxRetries d t w)) = stats w)
   \<and> (0 < n \<and> (\<forall>i<n. (\<exists>fd. feeDataRead (env i) = Inr fd) \<and> (\<forall>g. func (env i) g = Inl (err i))) \<longrightarrow>
        withRetry env (int n) d t w =
          (Threw (err (n - 1)),
           w\<lparr>sleeps := sleeps w @ map (\<lambda>i. d * (int i + 1)) [0..<n - 1],
             estimates := estimates w @ [0..<n],
             invocations := invocations w @ [0..<n]\<rparr>))"
proof (intro conjI impI)
  assume a: "\<forall>i g. \<exists>e. func (env i) g = Inl e"
  have "filter (\<lambda>i. sendsTx (env i) i) xs = []" for xs
    using never_sends [OF a] by (induction xs) simp_all
  then show "stats (snd (withRetry env maxRetries d t w)) = stats w"
    by (subst withRetry_counts) simp
next
  assume h: "0 < n \<and> (\<forall>i<n. (\<exists>fd. feeDataRead (env i) = Inr fd) \<and> (\<forall>g. func (env i) g = Inl (err i)))"
  have res: "attemptResult (env j) t j = Inl (err j)" if "j < n" for j
    using h that closure_throws_result [of "env j" _ "err j" t j] by blast
  have ns: "\<not> sendsTx (env j) j" if "j < n" for j
    using h that by (auto simp: sendsTx_def split: sum.splits)
  have g: "\<not> isl (getGasPrice (feeDataRead (env j)) j)" if "j < n" for j
    using h that by (auto simp: getGasPrice_def)
  have all: "\<forall>j. 0 \<le> j \<and> int j < int n \<longrightarrow> attemptResult (env j) t j = Inl (err j)"
    using res by simp
  have lt: "int 0 < int n" using h by simp
  have f1: "filter (\<lambda>j. sendsTx (env j) j) [0..<n] = []"
    using ns by (simp add: filter_empty_conv)
  have f2: "filter (\<lambda>j. \<not> isl (getGasPrice (feeDataRead (env j)) j)) [0..<n] = [0..<n]"
    using g by (simp add: filter_id_conv)
  show "withRetry env (int n) d t w =
          (Threw (err (n - 1)),
           w\<lparr>sleeps := sleeps w @ map (\<lambda>i. d * (int i + 1)) [0..<n - 1],
             estimates := estimates w @ [0..<n],
             invocations := invocations w @ [0..<n]\<rparr>)"
    unfolding withRetry_def
      withRetry_from_all_fail [where env=env and i=0 and n="int n", OF all lt, of d w]
    by (simp add: f1 f2)
qed

lemma alwaysInsufficient_result:
  "attemptResult (alwaysInsufficient j) t j = Inl (Error ''Insufficient RISE balance.'')"
  by (simp add: attemptResult_def tryBlock_def getGasPrice_def alwaysInsufficient_def Let_def)

theorem withRetry_closure_always_throws_witness:
  "(0::nat) < 3
   \<and> feeDataRead (alwaysInsufficient 0) = Inr exampleFeeData
   \<and> func (alwaysInsufficient 0) (Legacy 1) = Inl (Error ''Insufficient RISE balance.'')
   \<and> stats (snd (withRetry alwaysInsufficient 3 1000 60000 initialWorld)) = initialStats
   \<and> withRetry alwaysInsufficient 3 1000 60000 initialWorld =
       (Threw (Error ''Insufficient RISE balance.''),
        initialWorld\<lparr>sleeps := [1000, 2000], estimates := [0, 1, 2], invocations := [0, 1, 2]\<rparr>)"
  using withRetry_closure_always_throws
          [where env=alwaysInsufficient and maxRetries=3 and d=1000 and t=60000
             and w=initialWorld and n=3 and err="\<lambda>j. Error ''Insufficient RISE balance.''"]
  by (simp add: upt_3 initialWorld_def alwaysInsufficient_def)

text \<open>
  Claim C2 as stated fails: with the default \<open>maxRetries = 3\<close>, a closure that throws an
  insufficient-balance error before sending is invoked three times, with two sleeps in
  between, not once.
\<close>

theorem withRetry_retries_a_throwing_closure:
  "invocations (snd (withRetry alwaysInsufficient 3 1000 60000 initialWorld)) = [0, 1, 2]
   \<and> sleeps (snd (withRetry alwaysInsufficient 3 1000 60000 initialWorld)) = [1000, 2000]
   \<and> length (invocations (snd (withRetry alwaysInsufficient 3 1000 60000 initialWorld))) \<noteq> 1"
proof -
  have all: "\<forall>j. 0 \<le> j \<and> int j < 3 \<longrightarrow>
      attemptResult (alwaysInsufficient j) 60000 j = Inl (Error ''Insufficient RISE balance.'')"
    by (simp add: alwaysInsufficient_result)
  have g: "\<not> isl (getGasPrice (feeDataRead (alwaysInsufficient j)) j)" for j
    by (simp add: getGasPrice_def alwaysInsufficient_def)
  show ?thesis
    unfolding withRetry_def
      withRetry_from_all_fail [where env=alwaysInsufficient and i=0 and n=3 and t=60000
        and err="\<lambda>j. Error ''Insufficient RISE balance.''", OF all, simplified, of 1000 initialWorld]
    by (simp add: upt_3 g initialWorld_def)
qed

subsection \<open>The slippage floor of performSwap\<close>









subsection \<open>The burn amount of performRemoveLiquidity\<close>

lemma removeLiquidity_calls:
  assumes "map_of TOKENS (lpTokenName cfg) = Some a"
    and "balanceOf c (lpTokenName cfg) = Inr b"
    and "b \<noteq> 0" and "(b * removeAmountPercentage cfg) sdiv 100 \<noteq> 0"
  shows "set (snd (performRemoveLiquidity c cfg g)) \<subseteq>
           {Approve (lpTokenName cfg) ((b * removeAmountPercentage cfg) sdiv 100) GAS_LIMIT_ERC20 g,
            RemoveLiquidityETH a ((b * removeAmountPercentage cfg) sdiv 100) 0 0 GAS_LIMIT_COMPLEX g}"
  using assms by (auto simp: performRemoveLiquidity_def Let_def split: sum.splits)

lemma removeLiquidity_submits:
  assumes "map_of TOKENS (lpTokenName cfg) = Some a"
    and "balanceOf c (lpTokenName cfg) = Inr b"
    and "b \<noteq> 0" and "(b * removeAmountPercentage cfg) sdiv 100 \<noteq> 0"
    and "allowance c (lpTokenName cfg) = Inr granted"
  shows "(b * removeAmountPercentage cfg) sdiv 100 \<le> granted \<Longrightarrow>
           performRemoveLiquidity c cfg g =
             (send c (RemoveLiquidityETH a ((b * removeAmountPercentage cfg) sdiv 100) 0 0
                        GAS_LIMIT_COMPLEX g),
              [RemoveLiquidityETH a ((b * removeAmountPercentage cfg) sdiv 100) 0 0
                 GAS_LIMIT_COMPLEX g])"
    and "granted < (b * removeAmountPercentage cfg) sdiv 100 \<Longrightarrow>
         send c (Approve (lpTokenName cfg) ((b * removeAmountPercentage cfg) sdiv 100)
                   GAS_LIMIT_ERC20 g) = Inr approvalTx \<Longrightarrow>
         approvalWait c = Inr u \<Longrightarrow>
           performRemoveLiquidity c cfg g =
             (send c (RemoveLiquidityETH a ((b * removeAmountPercentage cfg) sdiv 100) 0 0
                        GAS_LIMIT_COMPLEX g),
              [Approve (lpTokenName cfg) ((b * removeAmountPercentage cfg) sdiv 100)
                 GAS_LIMIT_ERC20 g,
               RemoveLiquidityETH a ((b * removeAmountPercentage cfg) sdiv 100) 0 0
                 GAS_LIMIT_COMPLEX g])"
  using assms by (simp_all add: performRemoveLiquidity_def Let_def)

text \<open>
  Claim C7. \<^verbatim>\<open>performRemoveLiquidity\<close> fails, with no write call submitted, when the
  pool-share balance is zero or the computed burn amount is zero. Otherwise the burn amount
  is the balance times the percentage divided by 100, the division truncating toward zero,
  and a \<^verbatim>\<open>removeLiquidityETH\<close> call with exactly that amount is submitted: at once when
  the allowance covers it, after an approval of the same amount when it does not. No other
  \<^verbatim>\<open>removeLiquidityETH\<close> call is ever submitted. For a balance of 1,000,000 and the
  configured 50 per cent the burn is exactly 500,000.
\<close>

theorem performRemoveLiquidity_burn_amount:
  "(map_of TOKENS (lpTokenName cfg) = Some a \<and> balanceOf c (lpTokenName cfg) = Inr b
      \<and> (b = 0 \<or> (b * removeAmountPercentage cfg) sdiv 100 = 0) \<longrightarrow>
        performRemoveLiquidity c cfg g =
          (Inl (Error (if b = 0 then ''No LP tokens for '' @ lpTokenName cfg
                       else ''Calculated LP amount to remove is zero.'')), []))
   \<and> (map_of TOKENS (lpTokenName cfg) = Some a \<and> balanceOf c (lpTokenName cfg) = Inr b
      \<and> b \<noteq> 0 \<and> (b * removeAmountPercentage cfg) sdiv 100 \<noteq> 0
      \<and> allowance c (lpTokenName cfg) = Inr granted
      \<and> (b * removeAmountPercentage cfg) sdiv 100 \<le> granted \<longrightarrow>
        performRemoveLiquidity c cfg g =
          (send c (RemoveLiquidityETH a ((b * removeAmountPercentage cfg) sdiv 100) 0 0
                     GAS_LIMIT_COMPLEX g),
           [RemoveLiquidityETH a ((b * removeAmountPercentage cfg) sdiv 100) 0 0
              GAS_LIMIT_COMPLEX g]))
   \<and> (map_of TOKENS (lpTokenName cfg) = Some a \<and> balanceOf c (lpTokenName cfg) = Inr b
      \<and> b \<noteq> 0 \<and> (b * removeAmountPercentage cfg) sdiv 100 \<noteq> 0
      \<and> allowance c (lpTokenName cfg) = Inr granted
      \<and> granted < (b * removeAmountPercentage cfg) sdiv 100
      \<and> send c (Approve (lpTokenName cfg) ((b * removeAmountPercentage cfg) sdiv 100)
                  GAS_LIMIT_ERC20 g) = Inr approvalTx
      \<and> approvalWait c = Inr u \<longrightarrow>
        performRemoveLiquidity c cfg g =
          (send c (RemoveLiquidityETH a ((b * removeAmountPercentage cfg) sdiv 100) 0 0
                     GAS_LIMIT_COMPLEX g),
           [Approve (lpTokenName cfg) ((b * removeAmountPercentage cfg) sdiv 100)
              GAS_LIMIT_ERC20 g,
            RemoveLiquidityETH a ((b * removeAmountPercentage cfg) sdiv 100) 0 0
              GAS_LIMIT_COMPLEX g]))
   \<and> (map_of TOKENS (lpTokenName cfg) = Some a \<and> balanceOf c (lpTokenName cfg) = Inr b
      \<and> RemoveLiquidityETH token liquidity tokenMin ethMin limit g'
           \<in> set (snd (performRemoveLiquidity c cfg g)) \<longrightarrow>
        liquidity = (b * removeAmountPercentage cfg) sdiv 100
        \<and> liquidity = sgn b * sgn (removeAmountPercentage cfg)
                        * (\<bar>b * removeAmountPercentage cfg\<bar> div 100)
        \<and> liquidity \<noteq> 0)
   \<and> (balanceOf c ''RISE'' = Inr 1000000 \<and> allowance c ''RISE'' = Inr granted
      \<and> 500000 \<le> granted \<longrightarrow>
        performRemoveLiquidity c REMOVE_LIQUIDITY_CONFIG g =
          (send c (RemoveLiquidityETH ''0x0c28777DEebe4589e83EF2Dc7833354e6a0aFF85'' 500000 0 0
                     GAS_LIMIT_COMPLEX g),
           [RemoveLiquidityETH ''0x0c28777DEebe4589e83EF2Dc7833354e6a0aFF85'' 500000 0 0
              GAS_LIMIT_COMPLEX g]))"
proof (intro conjI impI)
  assume "map_of TOKENS (lpTokenName cfg) = Some a \<and> balanceOf c (lpTokenName cfg) = Inr b
      \<and> (b = 0 \<or> (b * removeAmountPercentage cfg) sdiv 100 = 0)"
  then show "performRemoveLiquidity c cfg g =
          (Inl (Error (if b = 0 then ''No LP tokens for '' @ lpTokenName cfg
                       else ''Calculated LP amount to remove is zero.'')), [])"
    by (auto simp: performRemoveLiquidity_def Let_def)
next
  assume "map_of TOKENS (lpTokenName cfg) = Some a \<and> balanceOf c (lpTokenName cfg) = Inr b
      \<and> b \<noteq> 0 \<and> (b * removeAmountPercentage cfg) sdiv 100 \<noteq> 0
      \<and> allowance c (lpTokenName cfg) = Inr granted
      \<and> (b * removeAmountPercentage cfg) sdiv 100 \<le> granted"
  then show "performRemoveLiquidity c cfg g =
          (send c (RemoveLiquidityETH a ((b * removeAmountPercentage cfg) sdiv 100) 0 0
                     GAS_LIMIT_COMPLEX g),
           [RemoveLiquidityETH a ((b * removeAmountPercentage cfg) sdiv 100) 0 0
              GAS_LIMIT_COMPLEX g])"
    using removeLiquidity_submits(1) [of cfg a c b granted g] by blast
next
  assume "map_of TOKENS (lpTokenName cfg) = Some a \<and> balanceOf c (lpTokenName cfg) = Inr b
      \<and> b \<noteq> 0 \<and> (b * removeAmountPercentage cfg) sdiv 100 \<noteq> 0
      \<and> allowance c (lpTokenName cfg) = Inr granted
      \<and> granted < (b * removeAmountPercentage cfg) sdiv 100
      \<and> send c (Approve (lpTokenName cfg) ((b * removeAmountPercentage cfg) sdiv 100)
                  GAS_LIMIT_ERC20 g) = Inr approvalTx
      \<and> approvalWait c = Inr u"
  then show "performRemoveLiquidity c cfg g =
          (send c (RemoveLiquidityETH a ((b * removeAmountPercentage cfg) sdiv 100) 0 0
                     GAS_LIMIT_COMPLEX g),
           [Approve (lpTokenName cfg) ((b * removeAmountPercentage cfg) sdiv 100)
              GAS_LIMIT_ERC20 g,
            RemoveLiquidityETH a ((b * removeAmountPercentage cfg) sdiv 100) 0 0
              GAS_LIMIT_COMPLEX g])"
    using removeLiquidity_submits(2) [of cfg a c b granted g approvalTx u] by blast
next
  assume h: "map_of TOKENS (lpTokenName cfg) = Some a \<and> balanceOf c (lpTokenName cfg) = Inr b
      \<and> RemoveLiquidityETH token liquidity tokenMin ethMin limit g'
           \<in> set (snd (performRemoveLiquidity c cfg g))"
  have nz: "b \<noteq> 0 \<and> (b * removeAmountPercentage cfg) sdiv 100 \<noteq> 0"
  proof (rule ccontr)
    assume "\<not> (b \<noteq> 0 \<and> (b * removeAmountPercentage cfg) sdiv 100 \<noteq> 0)"
    then have "snd (performRemoveLiquidity c cfg g) = []"
      using h by (auto simp: performRemoveLiquidity_def Let_def)
    then show False using h by simp
  qed
  then show l: "liquidity = (b * removeAmountPercentage cfg) sdiv 100"
    using h removeLiquidity_calls [of cfg a c b g] by auto
  show "liquidity = sgn b * sgn (removeAmountPercentage cfg)
                        * (\<bar>b * removeAmountPercentage cfg\<bar> div 100)"
    unfolding l by (simp add: signed_divide_int_def sgn_mult)
  show "liquidity \<noteq> 0" using l nz by simp
next
  assume "balanceOf c ''RISE'' = Inr 1000000 \<and> allowance c ''RISE'' = Inr granted
      \<and> 500000 \<le> granted"
  then show "performRemoveLiquidity c REMOVE_LIQUIDITY_CONFIG g =
          (send c (RemoveLiquidityETH ''0x0c28777DEebe4589e83EF2Dc7833354e6a0aFF85'' 500000 0 0
                     GAS_LIMIT_COMPLEX g),
           [RemoveLiquidityETH ''0x0c28777DEebe4589e83EF2Dc7833354e6a0aFF85'' 500000 0 0
              GAS_LIMIT_COMPLEX g])"
    by (simp add: performRemoveLiquidity_def REMOVE_LIQUIDITY_CONFIG_def TOKENS_def Let_def
        signed_divide_int_def)
qed

theorem performRemoveLiquidity_burn_amount_witness:
  "map_of TOKENS (lpTokenName REMOVE_LIQUIDITY_CONFIG) = Some ''0x0c28777DEebe4589e83EF2Dc7833354e6a0aFF85''
   \<and> balanceOf (exampleChain\<lparr>balanceOf := (\<lambda>s. Inr 0)\<rparr>) ''RISE'' = Inr 0
   \<and> performRemoveLiquidity (exampleChain\<lparr>balanceOf := (\<lambda>s. Inr 0)\<rparr>) REMOVE_LIQUIDITY_CONFIG
        (Legacy 1000) = (Inl (Error ''No LP tokens for RISE''), [])
   \<and> balanceOf (exampleChain\<lparr>balanceOf := (\<lambda>s. Inr 1)\<rparr>) ''RISE'' = Inr 1
   \<and> (1 * removeAmountPercentage REMOVE_LIQUIDITY_CONFIG) sdiv 100 = 0
   \<and> performRemoveLiquidity (exampleChain\<lparr>balanceOf := (\<lambda>s. Inr 1)\<rparr>) REMOVE_LIQUIDITY_CONFIG
        (Legacy 1000) = (Inl (Error ''Calculated LP amount to remove is zero.''), [])
   \<and> balanceOf exampleChain ''RISE'' = Inr 1000000
   \<and> allowance exampleChain ''RISE'' = Inr 1000000
   \<and> performRemoveLiquidity exampleChain REMOVE_LIQUIDITY_CONFIG (Legacy 1000) =
       (Inr confirmedTx,
        [RemoveLiquidityETH ''0x0c28777DEebe4589e83EF2Dc7833354e6a0aFF85'' 500000 0 0 800000
           (Legacy 1000)])
   \<and> RemoveLiquidityETH ''0x0c28777DEebe4589e83EF2Dc7833354e6a0aFF85'' 500000 0 0 800000
           (Legacy 1000)
       \<in> set (snd (performRemoveLiquidity exampleChain REMOVE_LIQUIDITY_CONFIG (Legacy 1000)))
   \<and> (1000000 * removeAmountPercentage REMOVE_LIQUIDITY_CONFIG) sdiv 100 = 500000
   \<and> balanceOf (exampleChain\<lparr>balanceOf := (\<lambda>s. Inr 2000001)\<rparr>) ''RISE'' = Inr 2000001
   \<and> performRemoveLiquidity (exampleChain\<lparr>balanceOf := (\<lambda>s. Inr 2000001)\<rparr>)
        REMOVE_LIQUIDITY_CONFIG (Legacy 1000) =
       (Inr confirmedTx,
        [RemoveLiquidityETH ''0x0c28777DEebe4589e83EF2Dc7833354e6a0aFF85'' 1000000 0 0 800000
           (Legacy 1000)])
   \<and> balanceOf (exampleChain\<lparr>balanceOf := (\<lambda>s. Inr 4000000)\<rparr>) ''RISE'' = Inr 4000000
   \<and> approvalWait (exampleChain\<lparr>balanceOf := (\<lambda>s. Inr 4000000)\<rparr>) = Inr ()
   \<and> performRemoveLiquidity (exampleChain\<lparr>balanceOf := (\<lambda>s. Inr 4000000)\<rparr>)
        REMOVE_LIQUIDITY_CONFIG (Legacy 1000) =
       (Inr confirmedTx,
        [Approve ''RISE'' 2000000 100000 (Legacy 1000),
         RemoveLiquidityETH ''0x0c28777DEebe4589e83EF2Dc7833354e6a0aFF85'' 2000000 0 0 800000
           (Legacy 1000)])"
proof -
  let ?rise = "''0x0c28777DEebe4589e83EF2Dc7833354e6a0aFF85''"
  let ?c0 = "exampleChain\<lparr>balanceOf := (\<lambda>s. Inr 0)\<rparr>"
  let ?c1 = "exampleChain\<lparr>balanceOf := (\<lambda>s. Inr 1)\<rparr>"
  let ?c2 = "exampleChain\<lparr>balanceOf := (\<lambda>s. Inr 2000001)\<rparr>"
  let ?c4 = "exampleChain\<lparr>balanceOf := (\<lambda>s. Inr 4000000)\<rparr>"
  have t: "map_of TOKENS (lpTokenName REMOVE_LIQUIDITY_CONFIG) = Some ?rise"
    by (simp add: TOKENS_def REMOVE_LIQUIDITY_CONFIG_def)
  have n: "lpTokenName REMOVE_LIQUIDITY_CONFIG = ''RISE''"
    "removeAmountPercentage REMOVE_LIQUIDITY_CONFIG = 50"
    by (simp_all add: REMOVE_LIQUIDITY_CONFIG_def)
  have b0: "balanceOf ?c0 ''RISE'' = Inr 0" and b1: "balanceOf ?c1 ''RISE'' = Inr 1"
    and b2: "balanceOf exampleChain ''RISE'' = Inr 1000000"
    and b3: "balanceOf ?c2 ''RISE'' = Inr 2000001"
    and b4: "balanceOf ?c4 ''RISE'' = Inr 4000000"
    and al: "allowance exampleChain ''RISE'' = Inr 1000000"
      "allowance ?c2 ''RISE'' = Inr 1000000" "allowance ?c4 ''RISE'' = Inr 1000000"
    and aw: "approvalWait ?c4 = Inr ()"
    by (simp_all add: exampleChain_def)
  have sd: "send exampleChain x = Inr confirmedTx" "send ?c2 x = Inr confirmedTx"
    "send ?c4 x = Inr confirmedTx" for x
    by (simp_all add: exampleChain_def)
  have v1: "(1 * removeAmountPercentage REMOVE_LIQUIDITY_CONFIG) sdiv 100 = 0"
    by (simp add: n signed_divide_int_def)
  have v2: "(2000001 * removeAmountPercentage REMOVE_LIQUIDITY_CONFIG) sdiv 100 = 1000000"
    and v4: "(4000000 * removeAmountPercentage REMOVE_LIQUIDITY_CONFIG) sdiv 100 = 2000000"
    by (simp_all add: n signed_divide_int_def)
  have c: "performRemoveLiquidity exampleChain REMOVE_LIQUIDITY_CONFIG (Legacy 1000) =
       (Inr confirmedTx,
        [RemoveLiquidityETH ?rise 500000 0 0 800000 (Legacy 1000)])"
    using performRemoveLiquidity_burn_amount
      [where c=exampleChain and g="Legacy 1000" and granted=1000000] b2 al(1)
    by (simp add: sd GAS_LIMIT_COMPLEX_def)
  have m: "RemoveLiquidityETH ?rise 500000 0 0 800000 (Legacy 1000)
       \<in> set (snd (performRemoveLiquidity exampleChain REMOVE_LIQUIDITY_CONFIG (Legacy 1000)))"
    by (simp add: c)
  have z: "performRemoveLiquidity ?c0 REMOVE_LIQUIDITY_CONFIG
        (Legacy 1000) = (Inl (Error ''No LP tokens for RISE''), [])"
    using performRemoveLiquidity_burn_amount
      [where c="?c0" and cfg=REMOVE_LIQUIDITY_CONFIG
         and a="?rise" and b=0 and g="Legacy 1000"] t b0
    by (simp add: n)
  have o: "performRemoveLiquidity ?c1 REMOVE_LIQUIDITY_CONFIG
        (Legacy 1000) = (Inl (Error ''Calculated LP amount to remove is zero.''), [])"
    using performRemoveLiquidity_burn_amount
      [where c="?c1" and cfg=REMOVE_LIQUIDITY_CONFIG
         and a="?rise" and b=1 and g="Legacy 1000"] t b1 v1
    by (simp add: n)
  have l: "(1000000 * removeAmountPercentage REMOVE_LIQUIDITY_CONFIG) sdiv 100 = 500000"
    using performRemoveLiquidity_burn_amount
      [where c=exampleChain and cfg=REMOVE_LIQUIDITY_CONFIG and a="?rise" and b=1000000
         and g="Legacy 1000" and token="?rise" and liquidity=500000 and tokenMin=0 and ethMin=0
         and limit=800000 and g'="Legacy 1000"] t m b2
    by (simp add: n(1))
  have d: "performRemoveLiquidity ?c2 REMOVE_LIQUIDITY_CONFIG (Legacy 1000) =
       (Inr confirmedTx,
        [RemoveLiquidityETH ?rise 1000000 0 0 800000 (Legacy 1000)])"
    using performRemoveLiquidity_burn_amount
      [where c="?c2" and cfg=REMOVE_LIQUIDITY_CONFIG and a="?rise" and b=2000001
         and granted=1000000 and g="Legacy 1000", THEN conjunct2, THEN conjunct1]
      t b3 al(2) v2
    by (simp add: n(1) sd GAS_LIMIT_COMPLEX_def)
  have q: "performRemoveLiquidity ?c4 REMOVE_LIQUIDITY_CONFIG (Legacy 1000) =
       (Inr confirmedTx,
        [Approve ''RISE'' 2000000 100000 (Legacy 1000),
         RemoveLiquidityETH ?rise 2000000 0 0 800000 (Legacy 1000)])"
    using performRemoveLiquidity_burn_amount
      [where c="?c4" and cfg=REMOVE_LIQUIDITY_CONFIG and a="?rise" and b=4000000
         and granted=1000000 and g="Legacy 1000" and approvalTx=confirmedTx and u="()",
         THEN conjunct2, THEN conjunct2, THEN conjunct1]
      t b4 al(3) v4 aw
    by (simp add: n(1) sd GAS_LIMIT_COMPLEX_def GAS_LIMIT_ERC20_def)
  show ?thesis
    by (intro conjI) (fact t b0 z b1 v1 o b2 al(1) c m l b3 d b4 aw q)+
qed
subsection \<open>The donor of checkAndRebalance\<close>

lemma tryBlock_requests: "requests (snd (tryBlock a t i w)) = requests w"
  by (simp add: tryBlock_snd)

lemma withRetry_from_requests_and_result:
  "requests (snd (withRetry_from env n d t i w)) = requests w
   \<and> (int i < n \<longrightarrow> fst (withRetry_from env n d t i w) \<noteq> Returned None)"
proof (induction k \<equiv> "nat (n - int i)" arbitrary: i w)
  case 0
  then have "\<not> int i < n" by simp
  then show ?case by (simp add: withRetry_from_none)
next
  case (Suc k)
  then have lt: "int i < n" by linarith
  show ?case
  proof (cases "attemptResult (env i) t i")
    case (Inr r)
    show ?thesis
      unfolding withRetry_from_success [where env=env and i=i, OF lt Inr]
      by (simp add: tryBlock_requests)
  next
    case (Inl e)
    show ?thesis
    proof (cases "int i < n - 1")
      case False
      show ?thesis
        unfolding withRetry_from_last [where env=env and i=i, OF lt False Inl]
        by (simp add: tryBlock_requests)
    next
      case True
      have k: "k = nat (n - int (Suc i))" using Suc.hyps(2) by simp
      have lt': "int (Suc i) < n" using True by simp
      show ?thesis
        unfolding withRetry_from_step [where env=env and i=i, OF True Inl]
        using Suc.hyps(1) [OF k] lt' by (simp add: tryBlock_requests)
    qed
  qed
qed

lemma withRetry_requests: "requests (snd (withRetry env n d t w)) = requests w"
  by (simp add: withRetry_def withRetry_from_requests_and_result)

lemma withRetry_never_null: "0 < n \<Longrightarrow> fst (withRetry env n d t w) \<noteq> Returned None"
  using withRetry_from_requests_and_result [of env n d t 0 w] by (simp add: withRetry_def)

lemma rebalanceXRP_requests:
  "requests (rebalanceXRP env wb syms w) =
     requests w @
       (case find (eligibleDonor wb) syms of
          None \<Rightarrow> []
        | Some tokenSymbol \<Rightarrow>
            [(tokenSymbol, ''XRP'', toFixed4 (the (map_of wb tokenSymbol) * 0.05))])"
proof (induction syms arbitrary: w)
  case Nil
  show ?case by simp
next
  case (Cons tokenSymbol rest)
  show ?case
  proof (cases "eligibleDonor wb tokenSymbol")
    case False
    then have "rebalanceXRP env wb (tokenSymbol # rest) w = rebalanceXRP env wb rest w"
      by (auto simp: eligibleDonor_def Let_def not_less split: option.splits)
    then show ?thesis using False Cons.IH [of w] by simp
  next
    case True
    then obtain balance where b: "map_of wb tokenSymbol = Some balance"
      and c: "tokenSymbol \<noteq> ''XRP''" "\<not> lessNum (Some balance) (twice (thresholdOf ''XRP''))"
        "0 < toFixed4 (balance * 0.05)"
      by (auto simp: eligibleDonor_def split: option.splits)
    let ?amount = "toFixed4 (balance * 0.05)"
    let ?w0 = "w\<lparr>requests := requests w @ [(tokenSymbol, ''XRP'', ?amount)]\<rparr>"
    let ?run = "withRetry (swapClosure (during env tokenSymbol) tokenSymbol ''XRP'' ?amount)
                  3 1000 60000 ?w0"
    obtain r w' where wr: "?run = (r, w')" by (cases ?run)
    have "requests (snd ?run) = requests ?w0" by (rule withRetry_requests)
    then have rq: "requests w' = requests ?w0" unfolding wr by simp
    have "fst ?run \<noteq> Returned None" by (rule withRetry_never_null) simp
    then have nn: "r \<noteq> Returned None" unfolding wr by simp
    have "requests (rebalanceXRP env wb (tokenSymbol # rest) w) = requests ?w0"
      using b c wr rq nn
      by (auto simp: Let_def countRebalance_def split: outcome.splits option.splits)
    then show ?thesis using True b by simp
  qed
qed

lemma rebalanceTokens_requests:
  "\<exists>rq. requests (rebalanceTokens env wb syms w) = requests w @ rq \<and> length rq \<le> 1"
proof (induction syms arbitrary: w)
  case Nil
  show ?case by simp
next
  case (Cons tokenSymbol rest)
  show ?case
  proof (cases "map_of wb ''XRP''")
    case None
    then show ?thesis using Cons.IH [of w] by simp
  next
    case (Some balance)
    let ?amount = "toFixed4 (balance * 0.01)"
    let ?w0 = "w\<lparr>requests := requests w @ [(''XRP'', tokenSymbol, ?amount)]\<rparr>"
    let ?run = "withRetry (swapClosure (during env ''XRP'') ''XRP'' tokenSymbol ?amount)
                  3 1000 60000 ?w0"
    obtain r w' where wr: "?run = (r, w')" by (cases ?run)
    have "requests (snd ?run) = requests ?w0" by (rule withRetry_requests)
    then have rq: "requests w' = requests w @ [(''XRP'', tokenSymbol, ?amount)]"
      unfolding wr by simp
    show ?thesis
      using Some wr rq Cons.IH [of w]
      by (auto simp: Let_def countRebalance_def split: outcome.splits option.splits)
  qed
qed

lemma checkAndRebalance_at_most_one_swap:
  "\<exists>rq. requests (checkAndRebalance env w) = requests w @ rq \<and> length rq \<le> 1"
proof (cases "lessNum (map_of (getWalletBalances (reads env)) ''XRP'') (thresholdOf ''XRP'')")
  case True
  then show ?thesis
    by (simp add: checkAndRebalance_def Let_def rebalanceXRP_requests split: option.splits)
next
  case False
  then show ?thesis
    using rebalanceTokens_requests
            [of env "getWalletBalances (reads env)" "map fst REBALANCE_THRESHOLDS" w]
    by (simp add: checkAndRebalance_def Let_def)
qed

lemma getWalletBalances_defined:
  assumes "tokenSymbol \<in> set (map fst TOKENS)"
  shows "map_of (getWalletBalances c) tokenSymbol \<noteq> None"
proof -
  have "tokenSymbol \<in> fst ` set (getWalletBalances c)"
    using assms by (auto simp: getWalletBalances_def image_iff)
  then show ?thesis by (simp add: map_of_eq_None_iff)
qed

lemma lowXRP_balances:
  "getWalletBalances lowXRPChain =
     [(''XRP'', 0.001), (''WXRP'', 0), (''RISE'', 0.012), (''RIBBIT'', 20)]"
  by (simp add: getWalletBalances_def getWalletTokenBalance_def lowXRPChain_def exampleChain_def
      TOKENS_def)

lemma toFixed4_one: "toFixed4 (20 * 0.05) = 1"
  by (simp add: toFixed4_def)

lemma lowXRP_swap:
  "fst (performSwap lowXRPChain (''RIBBIT'', ''XRP'') 1 ''AtoB'' g) = Inr confirmedTx"
proof -
  let ?path = "[''0x3D757474472f8F2A66Bdc1b51e4C4D11E813C16c'',
           ''0x81Be083099c2C65b062378E74Fa8469644347BB7'']"
  have pre: "swapPreflight lowXRPChain (''RIBBIT'', ''XRP'') 1 ''AtoB'' =
     Inr (''RIBBIT'', ''XRP'', ?path, 10 ^ 18)"
    by (simp add: swapPreflight_def getWalletTokenBalance_def lowXRPChain_def exampleChain_def
        TOKENS_def parseUnits_def Let_def)
  have sub: "fst (swapSubmit lowXRPChain ''RIBBIT'' ''XRP'' 1 raw m ?path g)
               = Inr confirmedTx" if "1000000 < raw" for m raw
    using that by (simp add: swapSubmit_def lowXRPChain_def exampleChain_def Let_def)
  show ?thesis
    unfolding performSwap_def pre by (simp add: sub)
qed

lemma lowXRP_attempt:
  "attemptResult (swapClosure (during lowXRPEnv ''RIBBIT'') ''RIBBIT'' ''XRP'' 1 0) 60000 0
     = Inr exampleReceipt"
proof -
  have f: "func (swapClosure (during lowXRPEnv ''RIBBIT'') ''RIBBIT'' ''XRP'' 1 0) g
             = Inr (Some confirmedTx)" for g
    by (simp add: swapClosure_def lowXRPEnv_def lowXRP_swap)
  have fd: "feeDataRead (swapClosure (during lowXRPEnv ''RIBBIT'') ''RIBBIT'' ''XRP'' 1 0)
             = Inr exampleFeeData"
    by (simp add: swapClosure_def lowXRPEnv_def)
  show ?thesis
    by (simp add: attemptResult_def tryBlock_def getGasPrice_def f fd confirmedTx_def
        exampleReceipt_def Let_def)
qed

text \<open>
  Claim C8, at a wallet with 0.001 XRP, no WXRP, 0.012 RISE and 20 RIBBIT. XRP is below
  its threshold, and RISE, the first token in the order of \<^verbatim>\<open>TOKENS\<close> that holds at least
  twice its own threshold of 0.005, is the donor the claim names. \<^verbatim>\<open>checkAndRebalance\<close>
  compares every donor with twice the XRP threshold of 0.01 instead: it passes over RISE
  and hands the swap of 5 per cent of the RIBBIT balance to \<^verbatim>\<open>withRetry\<close>, once.
\<close>

theorem checkAndRebalance_passes_over_RISE:
  "lessNum (map_of (getWalletBalances (reads lowXRPEnv)) ''XRP'') (thresholdOf ''XRP'')
   \<and> map_of (getWalletBalances (reads lowXRPEnv)) ''RISE'' = Some 0.012
   \<and> thresholdOf ''RISE'' = Some 0.005
   \<and> \<not> belowTwiceOwnThreshold (getWalletBalances (reads lowXRPEnv)) ''RISE''
   \<and> requests (checkAndRebalance lowXRPEnv initialWorld) = [(''RIBBIT'', ''XRP'', 1)]
   \<and> rebalances (stats (checkAndRebalance lowXRPEnv initialWorld)) = 1"
proof -
  have r: "reads lowXRPEnv = lowXRPChain" by (simp add: lowXRPEnv_def)
  have wr: "withRetry (swapClosure (during lowXRPEnv ''RIBBIT'') ''RIBBIT'' ''XRP'' 1)
              3 1000 60000 w =
           (Returned (Some exampleReceipt),
            w\<lparr>estimates := estimates w @ [0], invocations := invocations w @ [0],
              stats := (stats w)\<lparr>totalTransactions := totalTransactions (stats w) + 1\<rparr>\<rparr>)" for w
    by (rule withRetry_first_success) (simp_all add: lowXRP_attempt)
  have x: "rebalanceXRP lowXRPEnv (getWalletBalances lowXRPChain) (map fst TOKENS) initialWorld =
      countRebalance (initialWorld\<lparr>requests := [(''RIBBIT'', ''XRP'', 1)],
         estimates := [0], invocations := [0],
         stats := initialStats\<lparr>totalTransactions := 1\<rparr>\<rparr>)"
    using toFixed4_one
    by (simp add: lowXRP_balances TOKENS_def thresholdOf_def twice_def REBALANCE_THRESHOLDS_def
        wr initialWorld_def initialStats_def)
  have low: "lessNum (map_of (getWalletBalances lowXRPChain) ''XRP'') (thresholdOf ''XRP'')"
    by (simp add: lowXRP_balances thresholdOf_def REBALANCE_THRESHOLDS_def)
  have c: "checkAndRebalance lowXRPEnv initialWorld =
      countRebalance (initialWorld\<lparr>requests := [(''RIBBIT'', ''XRP'', 1)],
         estimates := [0], invocations := [0],
         stats := initialStats\<lparr>totalTransactions := 1\<rparr>\<rparr>)"
    unfolding checkAndRebalance_def r Let_def using low x by simp
  have rise: "map_of (getWalletBalances lowXRPChain) ''RISE'' = Some 0.012"
    by (simp add: lowXRP_balances)
  have th: "thresholdOf ''RISE'' = Some 0.005"
    by (simp add: thresholdOf_def REBALANCE_THRESHOLDS_def)
  have own: "\<not> belowTwiceOwnThreshold (getWalletBalances lowXRPChain) ''RISE''"
    by (simp add: belowTwiceOwnThreshold_def rise th twice_def)
  have rq: "requests (checkAndRebalance lowXRPEnv initialWorld) = [(''RIBBIT'', ''XRP'', 1)]"
    and rb: "rebalances (stats (checkAndRebalance lowXRPEnv initialWorld)) = 1"
    unfolding c by (simp_all add: countRebalance_def initialWorld_def initialStats_def)
  show ?thesis
    unfolding r by (intro conjI) (fact low rise th own rq rb)+
qed

subsection \<open>The activity counters\<close>

lemma statement_counts:
  "statement s (s\<lparr>totalTransactions := totalTransactions s + 1\<rparr>)"
  "statement s (s\<lparr>swaps := swaps s + 1\<rparr>)"
  "statement s (s\<lparr>addsLiquidity := addsLiquidity s + 1\<rparr>)"
  "statement s (s\<lparr>removesLiquidity := removesLiquidity s + 1\<rparr>)"
  "statement s (s\<lparr>sendsAndReceives := sendsAndReceives s + 1\<rparr>)"
  "statement s (s\<lparr>randomSends := randomSends s + 1\<rparr>)"
  "statement s (s\<lparr>customContractCalls := customContractCalls s + 1\<rparr>)"
  "statement s (s\<lparr>rebalances := rebalances s + 1\<rparr>)"
  "statement s (s\<lparr>lastActivity := l\<rparr>)"
proof -
  show "statement s (s\<lparr>totalTransactions := totalTransactions s + 1\<rparr>)"
    unfolding statement_def counters_def
    by (intro disjI2 exI [of _ 0]) simp
  show "statement s (s\<lparr>swaps := swaps s + 1\<rparr>)"
    unfolding statement_def counters_def
    by (intro disjI2 exI [of _ "Suc 0"]) simp
  show "statement s (s\<lparr>addsLiquidity := addsLiquidity s + 1\<rparr>)"
    unfolding statement_def counters_def
    by (intro disjI2 exI [of _ "Suc (Suc 0)"]) simp
  show "statement s (s\<lparr>removesLiquidity := removesLiquidity s + 1\<rparr>)"
    unfolding statement_def counters_def
    by (intro disjI2 exI [of _ "Suc (Suc (Suc 0))"]) simp
  show "statement s (s\<lparr>sendsAndReceives := sendsAndReceives s + 1\<rparr>)"
    unfolding statement_def counters_def
    by (intro disjI2 exI [of _ "Suc (Suc (Suc (Suc 0)))"]) simp
  show "statement s (s\<lparr>randomSends := randomSends s + 1\<rparr>)"
    unfolding statement_def counters_def
    by (intro disjI2 exI [of _ "Suc (Suc (Suc (Suc (Suc 0))))"]) simp
  show "statement s (s\<lparr>customContractCalls := customContractCalls s + 1\<rparr>)"
    unfolding statement_def counters_def
    by (intro disjI2 exI [of _ "Suc (Suc (Suc (Suc (Suc (Suc 0)))))"]) simp
  show "statement s (s\<lparr>rebalances := rebalances s + 1\<rparr>)"
    unfolding statement_def counters_def
    by (intro disjI2 exI [of _ "Suc (Suc (Suc (Suc (Suc (Suc (Suc 0))))))"]) simp
  show "statement s (s\<lparr>lastActivity := l\<rparr>)"
    unfolding statement_def counters_def by simp
qed

lemmas statement_Suc = statement_counts [simplified]

lemma statement_le: "statement s s' \<Longrightarrow> countersLe s s'"
proof -
  assume "statement s s'"
  then consider "counters s' = counters s"
    | k where "k < length (counters s)" "counters s' = (counters s)[k := counters s ! k + 1]"
    unfolding statement_def by blast
  then show ?thesis
  proof cases
    case 1
    then show ?thesis by (simp add: countersLe_def list_all2_same)
  next
    case 2
    have "list_all2 (\<le>) xs (xs[k := xs ! k + 1])" for xs :: "nat list"
      by (cases "k < length xs") (auto simp: list_all2_conv_all_nth nth_list_update)
    then show ?thesis using 2(2) by (simp add: countersLe_def)
  qed
qed

lemma countersLe_refl: "countersLe s s"
  by (simp add: countersLe_def list_all2_same)

lemma countersLe_trans:
  assumes "countersLe a b" and "countersLe b c"
  shows "countersLe a c"
  unfolding countersLe_def
  by (rule list_all2_trans [OF _ assms [unfolded countersLe_def]]) simp

lemma statements_le: "statement\<^sup>*\<^sup>* s s' \<Longrightarrow> countersLe s s'"
  by (induction rule: rtranclp_induct)
     (auto intro: countersLe_refl countersLe_trans statement_le)

lemma statements_total: "statement\<^sup>*\<^sup>* s (s\<lparr>totalTransactions := totalTransactions s + n\<rparr>)"
proof (induction n)
  case 0
  show ?case by simp
next
  case (Suc n)
  let ?m = "s\<lparr>totalTransactions := totalTransactions s + n\<rparr>"
  have "statement ?m (?m\<lparr>totalTransactions := totalTransactions ?m + 1\<rparr>)"
    by (rule statement_counts)
  then have "statement ?m (s\<lparr>totalTransactions := totalTransactions s + Suc n\<rparr>)" by simp
  with Suc show ?case by (rule rtranclp.rtrancl_into_rtrancl)
qed

lemma withRetry_statements:
  "statement\<^sup>*\<^sup>* (stats w) (stats (snd (withRetry env n d t w)))"
  by (subst withRetry_counts) (rule statements_total)

lemma withRetry_statements':
  "withRetry env n d t w = (r, w') \<Longrightarrow> statement\<^sup>*\<^sup>* (stats w) (stats w')"
  using withRetry_statements [of w env n d t] by simp

lemma countRebalance_statement: "statement (stats w) (stats (countRebalance w))"
  by (simp add: countRebalance_def statement_Suc)

lemma rebalanceXRP_statements:
  "statement\<^sup>*\<^sup>* (stats w) (stats (rebalanceXRP env wb syms w))"
proof (induction syms arbitrary: w)
  case Nil
  show ?case by simp
next
  case (Cons tokenSymbol rest)
  show ?case
  proof (cases "tokenSymbol = ''XRP''
         \<or> lessNum (map_of wb tokenSymbol) (twice (thresholdOf ''XRP''))")
    case True
    then show ?thesis using Cons.IH [of w] by simp
  next
    case False
    show ?thesis
    proof (cases "map_of wb tokenSymbol")
      case None
      then show ?thesis using False Cons.IH [of w] by simp
    next
      case (Some balance)
      let ?amount = "toFixed4 (balance * 0.05)"
      show ?thesis
      proof (cases "?amount \<le> 0")
        case True
        then show ?thesis using False Some Cons.IH [of w] by (simp add: Let_def)
      next
        case pos: False
        let ?w0 = "w\<lparr>requests := requests w @ [(tokenSymbol, ''XRP'', ?amount)]\<rparr>"
        obtain r w' where wr:
          "withRetry (swapClosure (during env tokenSymbol) tokenSymbol ''XRP'' ?amount)
             3 1000 60000 ?w0 = (r, w')"
          by (cases "withRetry (swapClosure (during env tokenSymbol) tokenSymbol ''XRP'' ?amount)
             3 1000 60000 ?w0")
        have s1: "statement\<^sup>*\<^sup>* (stats w) (stats w')"
          using withRetry_statements' [OF wr] by simp
        have s2: "statement\<^sup>*\<^sup>* (stats w') (stats (countRebalance w'))"
          using countRebalance_statement [of w'] by blast
        have s3: "statement\<^sup>*\<^sup>* (stats w') (stats (rebalanceXRP env wb rest w'))"
          by (rule Cons.IH)
        show ?thesis
          using False Some pos wr s1 s2 s3
          by (auto simp: Let_def split: outcome.splits option.splits
              intro: rtranclp_trans)
      qed
    qed
  qed
qed

lemma rebalanceTokens_statements:
  "statement\<^sup>*\<^sup>* (stats w) (stats (rebalanceTokens env wb syms w))"
proof (induction syms arbitrary: w)
  case Nil
  show ?case by simp
next
  case (Cons tokenSymbol rest)
  show ?case
  proof (cases "map_of wb ''XRP''")
    case None
    then show ?thesis using Cons.IH [of w] by simp
  next
    case (Some balance)
    let ?amount = "toFixed4 (balance * 0.01)"
    let ?w0 = "w\<lparr>requests := requests w @ [(''XRP'', tokenSymbol, ?amount)]\<rparr>"
    obtain r w' where wr:
      "withRetry (swapClosure (during env ''XRP'') ''XRP'' tokenSymbol ?amount)
         3 1000 60000 ?w0 = (r, w')"
      by (cases "withRetry (swapClosure (during env ''XRP'') ''XRP'' tokenSymbol ?amount)
         3 1000 60000 ?w0")
    have s1: "statement\<^sup>*\<^sup>* (stats w) (stats w')"
      using withRetry_statements' [OF wr] by simp
    have s2: "statement\<^sup>*\<^sup>* (stats w') (stats (countRebalance w'))"
      using countRebalance_statement [of w'] by blast
    show ?thesis
      using Some wr s1 s2 Cons.IH [of w]
      by (auto simp: Let_def split: outcome.splits option.splits
          intro: rtranclp_trans)
  qed
qed

lemma checkAndRebalance_statements:
  "statement\<^sup>*\<^sup>* (stats w) (stats (checkAndRebalance env w))"
  by (simp add: checkAndRebalance_def Let_def rebalanceXRP_statements rebalanceTokens_statements)

lemma ifReceipt_statements:
  assumes "\<And>s. statement s (count s)"
  shows "statement\<^sup>*\<^sup>* (stats (snd r)) (stats (snd (ifReceipt count r)))"
proof (cases r)
  case (Pair x w)
  have "statement\<^sup>*\<^sup>* (stats w) (count (stats w))" using assms by blast
  then show ?thesis
    using Pair by (auto simp: ifReceipt_def split: outcome.splits option.splits)
qed

lemma counted_withRetry:
  assumes "\<And>s. statement s (count s)"
  shows "statement\<^sup>*\<^sup>* (stats w) (stats (snd (ifReceipt count (withRetry env n d t w))))"
  using withRetry_statements [of w env n d t]
    ifReceipt_statements [OF assms, of "withRetry env n d t w"]
  by (rule rtranclp_trans)

lemma dispatch_statements:
  "statement\<^sup>*\<^sup>* (stats w) (stats (snd (dispatch e a w)))"
  by (cases a) (simp_all add: dispatch_def counted_withRetry statement_Suc)

lemma actionLoop_statements:
  "statement\<^sup>*\<^sup>* (stats w) (stats (actionLoop env retriesLeft k w))"
proof (induction retriesLeft arbitrary: k w)
  case 0
  show ?case by simp
next
  case (Suc retriesLeft)
  let ?w1 = "checkAndRebalance (rebalance (env k)) w"
  let ?a = "selectWeightedAction (random (env k))"
  obtain r w2 where d: "dispatch (env k) ?a ?w1 = (r, w2)"
    by (cases "dispatch (env k) ?a ?w1")
  have s1: "statement\<^sup>*\<^sup>* (stats w) (stats ?w1)" by (rule checkAndRebalance_statements)
  have s2: "statement\<^sup>*\<^sup>* (stats ?w1) (stats w2)"
    using dispatch_statements [of ?w1 "env k" ?a] d by simp
  have s12: "statement\<^sup>*\<^sup>* (stats w) (stats w2)" using s1 s2 by (rule rtranclp_trans)
  let ?w3 = "if retriesLeft > 0 then w2\<lparr>sleeps := sleeps w2 @ [5000]\<rparr> else w2"
  have s3: "statement\<^sup>*\<^sup>* (stats ?w3) (stats (actionLoop env retriesLeft (Suc k) ?w3))"
    by (rule Suc.IH)
  have e3: "stats ?w3 = stats w2" by simp
  have s4: "statement\<^sup>*\<^sup>* (stats w) (stats (actionLoop env retriesLeft (Suc k) ?w3))"
    using s12 s3 unfolding e3 by (rule rtranclp_trans)
  show ?case
    using d s12 s4 by (auto simp: Let_def split: outcome.splits option.splits)
qed

lemma processWallet_statements:
  "statement\<^sup>*\<^sup>* (stats w) (stats (processWallet v w))"
proof -
  let ?l = "(address v, now v) # filter (\<lambda>p. fst p \<noteq> address v) (lastActivity (stats w))"
  let ?w0 = "w\<lparr>stats := (stats w)\<lparr>lastActivity := ?l\<rparr>\<rparr>"
  have "statement (stats w) (stats ?w0)" by (simp add: statement_counts)
  then have "statement\<^sup>*\<^sup>* (stats w) (stats ?w0)" by blast
  moreover have "statement\<^sup>*\<^sup>* (stats ?w0) (stats (actionLoop (turns v) 3 0 ?w0))"
    by (rule actionLoop_statements)
  ultimately show ?thesis
    unfolding processWallet_def by (rule rtranclp_trans)
qed

lemma walletsLoop_statements:
  "statement\<^sup>*\<^sup>* (stats w) (stats (walletsLoop vs w))"
proof (induction vs arbitrary: w)
  case Nil
  show ?case by simp
next
  case (Cons v vs)
  show ?case
    using processWallet_statements [of w v] Cons.IH [of "processWallet v w"]
    by (auto intro: rtranclp_trans)
qed

lemma startRandomLoop_statements:
  "statement\<^sup>*\<^sup>* (stats w) (stats (startRandomLoop cs w))"
proof (induction cs arbitrary: w)
  case Nil
  show ?case by simp
next
  case (Cons c cs)
  let ?w' = "walletsLoop (visits c) w"
  let ?w'' = "?w'\<lparr>sleeps := sleeps ?w' @ [sleepTime c]\<rparr>"
  have "statement\<^sup>*\<^sup>* (stats w) (stats ?w'')"
    using walletsLoop_statements [of w "visits c"] by simp
  moreover have "statement\<^sup>*\<^sup>* (stats ?w'') (stats (startRandomLoop cs ?w''))"
    by (rule Cons.IH)
  ultimately show ?case
    by (simp add: Let_def)
qed

lemma statement_unchanged_or_one:
  assumes "statement s s'" and "k < length (counters s)"
  shows "counters s' ! k = counters s ! k \<or> counters s' ! k = counters s ! k + 1"
proof -
  from assms(1) consider "counters s' = counters s"
    | j where "j < length (counters s)" "counters s' = (counters s)[j := counters s ! j + 1]"
    unfolding statement_def by blast
  then show ?thesis
  proof cases
    case 1
    then show ?thesis by simp
  next
    case 2
    then show ?thesis using assms(2) by (cases "j = k") simp_all
  qed
qed

text \<open>
  Claim C10. The eight counters of \<^verbatim>\<open>activityStats\<close> never decrease: the effect of
  \<^verbatim>\<open>withRetry\<close>, of \<^verbatim>\<open>checkAndRebalance\<close> and of a whole run of \<^verbatim>\<open>startRandomLoop\<close> on them is
  a sequence of statements each of which leaves every counter unchanged or raises one of
  them by exactly 1, and such a sequence leaves every counter at least as large as it was.
\<close>

theorem counters_never_decrease:
  "statement\<^sup>*\<^sup>* (stats w) (stats (snd (withRetry env n d t w)))
   \<and> statement\<^sup>*\<^sup>* (stats w) (stats (checkAndRebalance e w))
   \<and> statement\<^sup>*\<^sup>* (stats w) (stats (startRandomLoop cs w))
   \<and> (statement s s' \<longrightarrow>
        (\<forall>k < length (counters s).
           counters s' ! k = counters s ! k \<or> counters s' ! k = counters s ! k + 1))
   \<and> (statement\<^sup>*\<^sup>* s s' \<longrightarrow>
        totalTransactions s \<le> totalTransactions s' \<and> swaps s \<le> swaps s'
        \<and> addsLiquidity s \<le> addsLiquidity s' \<and> removesLiquidity s \<le> removesLiquidity s'
        \<and> sendsAndReceives s \<le> sendsAndReceives s' \<and> randomSends s \<le> randomSends s'
        \<and> customContractCalls s \<le> customContractCalls s' \<and> rebalances s \<le> rebalances s')"
proof (intro conjI impI allI)
  show "statement\<^sup>*\<^sup>* (stats w) (stats (snd (withRetry env n d t w)))"
    by (rule withRetry_statements)
  show "statement\<^sup>*\<^sup>* (stats w) (stats (checkAndRebalance e w))"
    by (rule checkAndRebalance_statements)
  show "statement\<^sup>*\<^sup>* (stats w) (stats (startRandomLoop cs w))"
    by (rule startRandomLoop_statements)
  show "counters s' ! k = counters s ! k \<or> counters s' ! k = counters s ! k + 1"
    if "statement s s'" and "k < length (counters s)" for k
    using that by (rule statement_unchanged_or_one)
next
  assume "statement\<^sup>*\<^sup>* s s'"
  then have le: "countersLe s s'" by (rule statements_le)
  then show "totalTransactions s \<le> totalTransactions s'" "swaps s \<le> swaps s'"
    "addsLiquidity s \<le> addsLiquidity s'" "removesLiquidity s \<le> removesLiquidity s'"
    "sendsAndReceives s \<le> sendsAndReceives s'" "randomSends s \<le> randomSends s'"
    "customContractCalls s \<le> customContractCalls s'" "rebalances s \<le> rebalances s'"
    by (simp_all add: countersLe_def counters_def)
qed

lemma exampleChain_balances:
  "getWalletBalances exampleChain = [(''XRP'', 10), (''WXRP'', 1), (''RISE'', 1), (''RIBBIT'', 1)]"
  by (simp add: getWalletBalances_def getWalletTokenBalance_def exampleChain_def TOKENS_def)

lemma exampleTurn_rebalance:
  "checkAndRebalance (rebalance (exampleTurn k)) w = w"
  by (simp add: checkAndRebalance_def exampleTurn_def exampleChain_balances Let_def
      thresholdOf_def twice_def REBALANCE_THRESHOLDS_def)

lemma exampleTurn_action: "selectWeightedAction (random (exampleTurn k)) = ADD_LIQUIDITY"
  by (simp add: selectWeightedAction_def exampleTurn_def ACTION_PROBABILITIES_def)

lemma exampleCycle_run:
  "stats (startRandomLoop [exampleCycle] initialWorld) =
     initialStats\<lparr>totalTransactions := 1, addsLiquidity := 1,
       lastActivity := [(''0x01'', ''1/1/2026, 10:00:00 AM'')]\<rparr>"
proof -
  have wr: "withRetry confirmsAtOnce 3 1000 60000 w =
           (Returned (Some exampleReceipt),
            w\<lparr>estimates := estimates w @ [0], invocations := invocations w @ [0],
              stats := (stats w)\<lparr>totalTransactions := totalTransactions (stats w) + 1\<rparr>\<rparr>)" for w
    by (rule withRetry_first_success) (simp_all add: confirmsAtOnce_result)
  have d: "dispatch (exampleTurn 0) ADD_LIQUIDITY w =
           (Returned (Some exampleReceipt),
            w\<lparr>estimates := estimates w @ [0], invocations := invocations w @ [0],
              stats := (stats w)\<lparr>totalTransactions := totalTransactions (stats w) + 1,
                                 addsLiquidity := addsLiquidity (stats w) + 1\<rparr>\<rparr>)" for w
    by (simp add: dispatch_def ifReceipt_def exampleTurn_def wr)
  have a: "actionLoop exampleTurn (Suc (Suc (Suc 0))) 0 w =
            w\<lparr>estimates := estimates w @ [0], invocations := invocations w @ [0],
              stats := (stats w)\<lparr>totalTransactions := totalTransactions (stats w) + 1,
                                 addsLiquidity := addsLiquidity (stats w) + 1\<rparr>\<rparr>" for w
    by (simp add: exampleTurn_rebalance exampleTurn_action d)
  show ?thesis
    by (simp add: exampleCycle_def processWallet_def numeral_3_eq_3 a
        initialWorld_def initialStats_def del: actionLoop.simps)
qed

theorem counters_never_decrease_witness:
  "stats (startRandomLoop [exampleCycle] initialWorld) =
     initialStats\<lparr>totalTransactions := 1, addsLiquidity := 1,
       lastActivity := [(''0x01'', ''1/1/2026, 10:00:00 AM'')]\<rparr>
   \<and> statement\<^sup>*\<^sup>* initialStats (stats (startRandomLoop [exampleCycle] initialWorld))
   \<and> statement initialStats (initialStats\<lparr>totalTransactions := 1\<rparr>)
   \<and> counters (initialStats\<lparr>totalTransactions := 1\<rparr>) ! 0 = counters initialStats ! 0 + 1
   \<and> totalTransactions initialStats
       \<le> totalTransactions (stats (startRandomLoop [exampleCycle] initialWorld))
   \<and> rebalances initialStats \<le> rebalances (stats (startRandomLoop [exampleCycle] initialWorld))"
proof -
  note t = counters_never_decrease
    [where w=initialWorld and cs="[exampleCycle]" and s=initialStats
       and s'="stats (startRandomLoop [exampleCycle] initialWorld)"]
  have r: "statement\<^sup>*\<^sup>* initialStats (stats (startRandomLoop [exampleCycle] initialWorld))"
    using t by (simp add: initialWorld_def)
  have s1: "statement initialStats (initialStats\<lparr>totalTransactions := 1\<rparr>)"
    using statement_counts(1) [of initialStats] by (simp add: initialStats_def)
  have c1: "counters (initialStats\<lparr>totalTransactions := 1\<rparr>) ! 0 = counters initialStats ! 0 + 1"
    by (simp add: counters_def initialStats_def)
  have le: "totalTransactions initialStats
       \<le> totalTransactions (stats (startRandomLoop [exampleCycle] initialWorld))"
    "rebalances initialStats \<le> rebalances (stats (startRandomLoop [exampleCycle] initialWorld))"
    using t r by blast+
  show ?thesis
    by (intro conjI) (fact exampleCycle_run r s1 c1 le)+
qed


end
